theory Spec2Isabelle
  imports Main "HOL-Library.Word"
begin

section \<open>Values of the Python run time\<close>

text \<open>
  The program is one Python file, \<^verbatim>\<open>glb2stl.py\<close>. Its functions are embedded one by one;
  what they call in the Python library (\<^verbatim>\<open>struct\<close>, \<^verbatim>\<open>json\<close>, slicing, \<^verbatim>\<open>range\<close>, files,
  \<^verbatim>\<open>numpy\<close> indexing) is modelled first. Every exception is a value of \<open>error\<close>, and a
  function that can raise returns \<open>error + 'a\<close> with \<open>Inl\<close> for the exception. A value
  that \<^verbatim>\<open>json.loads\<close> returns is a \<open>json\<close>; a dict is the list of its items, with distinct
  keys.
\<close>

type_synonym byte = "8 word"

datatype error =
    ValueError | StructError | KeyError | IndexError | TypeError
  | AttributeError | OverflowError | OSError

fun and_then :: "error + 'a \<Rightarrow> ('a \<Rightarrow> error + 'b) \<Rightarrow> error + 'b" where
  "and_then (Inl e) f = Inl e"
| "and_then (Inr x) f = f x"

definition bytes_of :: "string \<Rightarrow> byte list" where
  \<comment> \<open>an ASCII bytes literal \<^verbatim>\<open>b'...'\<close>\<close>
  "bytes_of s = map of_char s"

text \<open>
  A Python float is an IEEE binary64 value: \<open>Finite s m e\<close> is \<open>(-1)^s * m * 2^e\<close>.
  The 32-bit floats of the input are kept by their bit pattern (\<open>f32\<close>): the program reads
  them with \<^verbatim>\<open>struct.unpack\<close>, never changes a coordinate, and writes them
  back with \<^verbatim>\<open>struct.pack\<close>, which returns the pattern it was read from, but for a
  signalling NaN: the conversion to binary64 sets its quiet bit (\<open>quiet_nan\<close>).
\<close>

datatype pyfloat = Finite bool nat int | Infinite bool | NaN

type_synonym f32 = "32 word"

type_synonym vertex = "f32 \<times> f32 \<times> f32"

type_synonym face = "nat \<times> nat \<times> nat"

datatype json =
    JNull | JBool bool | JInt int | JFloat pyfloat | JStr string
  | JArr "json list" | JObj "(string \<times> json) list"

subsection \<open>Indexing, slicing and range\<close>

definition py_index :: "'a list \<Rightarrow> int \<Rightarrow> error + 'a" where
  \<comment> \<open>\<^verbatim>\<open>xs[i]\<close>: a negative index counts from the end\<close>
  "py_index xs i =
     (if i < - int (length xs) \<or> int (length xs) \<le> i then Inl IndexError
      else Inr (xs ! nat (if i < 0 then i + int (length xs) else i)))"

definition slice_bound :: "nat \<Rightarrow> int \<Rightarrow> nat" where
  "slice_bound n i = (if i < 0 then nat (max (i + int n) 0) else min (nat i) n)"

definition py_slice :: "'a list \<Rightarrow> int \<Rightarrow> int \<Rightarrow> 'a list" where
  \<comment> \<open>\<^verbatim>\<open>xs[a:b]\<close>: both bounds are clamped to the list, never an error\<close>
  "py_slice xs a b =
     (let lo = slice_bound (length xs) a; hi = slice_bound (length xs) b
      in take (hi - lo) (drop lo xs))"

function py_range :: "int \<Rightarrow> int \<Rightarrow> nat \<Rightarrow> int list" where
  "py_range i stop step =
     (if i < stop \<and> 0 < step then i # py_range (i + int step) stop step else [])"
  by pat_completeness auto
termination
  by (relation "measure (\<lambda>(i, stop, step). nat (stop - i))") auto

declare py_range.simps [simp del]

fun py_int_of :: "json \<Rightarrow> int option" where
  \<comment> \<open>the values Python accepts as an integer: \<^verbatim>\<open>bool\<close> is a subclass of \<^verbatim>\<open>int\<close>\<close>
  "py_int_of (JInt i) = Some i"
| "py_int_of (JBool b) = Some (if b then 1 else 0)"
| "py_int_of _ = None"

fun subscript :: "json \<Rightarrow> json \<Rightarrow> error + json" where
  \<comment> \<open>\<^verbatim>\<open>obj[key]\<close> on a value that \<^verbatim>\<open>json.loads\<close> returned\<close>
  "subscript (JObj kvs) (JStr k) = (case map_of kvs k of Some v \<Rightarrow> Inr v | None \<Rightarrow> Inl KeyError)"
| "subscript (JObj kvs) (JArr _) = Inl TypeError"
| "subscript (JObj kvs) (JObj _) = Inl TypeError"
| "subscript (JObj kvs) _ = Inl KeyError"
| "subscript (JArr xs) key =
     (case py_int_of key of Some i \<Rightarrow> py_index xs i | None \<Rightarrow> Inl TypeError)"
| "subscript (JStr s) key =
     (case py_int_of key of
        Some i \<Rightarrow> and_then (py_index s i) (\<lambda>c. Inr (JStr [c]))
      | None \<Rightarrow> Inl TypeError)"
| "subscript _ _ = Inl TypeError"

fun lookup_path :: "json \<Rightarrow> json list \<Rightarrow> error + json" where
  \<comment> \<open>\<^verbatim>\<open>obj[k1][k2]...\<close>, left to right\<close>
  "lookup_path obj [] = Inr obj"
| "lookup_path obj (k # ks) = and_then (subscript obj k) (\<lambda>v. lookup_path v ks)"

fun dict_get :: "json \<Rightarrow> string \<Rightarrow> json \<Rightarrow> error + json" where
  \<comment> \<open>\<^verbatim>\<open>obj.get(key, default)\<close>: only a dict has the method\<close>
  "dict_get (JObj kvs) k d = Inr (case map_of kvs k of Some v \<Rightarrow> v | None \<Rightarrow> d)"
| "dict_get _ k d = Inl AttributeError"

fun py_len :: "json \<Rightarrow> error + nat" where
  "py_len (JArr xs) = Inr (length xs)"
| "py_len (JStr s) = Inr (length s)"
| "py_len (JObj kvs) = Inr (length kvs)"
| "py_len _ = Inl TypeError"

subsection \<open>struct.pack and struct.unpack\<close>

definition le_nat :: "byte list \<Rightarrow> nat" where
  "le_nat bs = foldr (\<lambda>b acc. unat b + 256 * acc) bs 0"

definition le_bytes4 :: "nat \<Rightarrow> byte list" where
  "le_bytes4 n =
     [of_nat (n mod 256), of_nat (n div 256 mod 256),
      of_nat (n div 65536 mod 256), of_nat (n div 16777216 mod 256)]"

definition unpack_I :: "byte list \<Rightarrow> error + nat" where
  \<comment> \<open>\<^verbatim>\<open>struct.unpack('<I', bs)[0]\<close>\<close>
  "unpack_I bs = (if length bs = 4 then Inr (le_nat bs) else Inl StructError)"

definition unpack_III :: "byte list \<Rightarrow> error + face" where
  \<comment> \<open>\<^verbatim>\<open>struct.unpack('<III', bs)\<close>\<close>
  "unpack_III bs =
     (if length bs = 12
      then Inr (le_nat (take 4 bs), le_nat (take 4 (drop 4 bs)), le_nat (drop 8 bs))
      else Inl StructError)"

definition f32_of :: "byte list \<Rightarrow> f32" where
  "f32_of bs = of_nat (le_nat bs)"

definition unpack_fff :: "byte list \<Rightarrow> error + vertex" where
  \<comment> \<open>\<^verbatim>\<open>struct.unpack('<fff', bs)\<close>\<close>
  "unpack_fff bs =
     (if length bs = 12
      then Inr (f32_of (take 4 bs), f32_of (take 4 (drop 4 bs)), f32_of (drop 8 bs))
      else Inl StructError)"

definition pack_I :: "nat \<Rightarrow> error + byte list" where
  \<comment> \<open>\<^verbatim>\<open>struct.pack('<I', n)\<close>\<close>
  "pack_I n = (if n < 2 ^ 32 then Inr (le_bytes4 n) else Inl StructError)"

definition f32_bytes :: "f32 \<Rightarrow> byte list" where
  \<comment> \<open>the four bytes of a binary32 pattern, the low byte first\<close>
  "f32_bytes w = le_bytes4 (unat w)"

definition quiet_nan :: "nat \<Rightarrow> nat" where
  \<comment> \<open>a binary32 pattern after the conversion to binary64 and back: every pattern comes
      back as it was but that of a signalling NaN (exponent 255, fraction not 0, bit 22
      clear), which comes back with bit 22 set\<close>
  "quiet_nan n =
     (if n div 2 ^ 23 mod 256 = 255 \<and> n mod 2 ^ 23 \<noteq> 0 \<and> n div 2 ^ 22 mod 2 = 0
      then n + 2 ^ 22 else n)"

definition pack_f :: "f32 \<Rightarrow> byte list" where
  \<comment> \<open>\<^verbatim>\<open>struct.pack('<f', x)\<close> of the float \<open>x\<close> that \<^verbatim>\<open>struct.unpack\<close> made of the pattern \<open>w\<close>\<close>
  "pack_f w = le_bytes4 (quiet_nan (unat w))"

definition pack_fff :: "vertex \<Rightarrow> byte list" where
  "pack_fff v = (case v of (x, y, z) \<Rightarrow> pack_f x @ pack_f y @ pack_f z)"

definition pack_H_zero :: "byte list" where
  \<comment> \<open>\<^verbatim>\<open>struct.pack('<H', 0)\<close>\<close>
  "pack_H_zero = [0, 0]"

section \<open>parse_glb\<close>

text \<open>
  A file system is a map from paths to contents: opening a path that it does not have for
  reading raises \<open>OSError\<close>, opening a path for writing always succeeds and leaves an empty
  file. \<open>fread data pos n\<close> is \<^verbatim>\<open>f.read(n)\<close> at position \<open>pos\<close>: it returns at most \<open>n\<close>
  bytes, fewer at the end of the file, and the new position. \<^verbatim>\<open>json.loads\<close> is a parameter
  of the model.
\<close>

type_synonym filesystem = "string \<rightharpoonup> byte list"

definition fread :: "byte list \<Rightarrow> nat \<Rightarrow> nat \<Rightarrow> byte list \<times> nat" where
  "fread data pos n = (take n (drop pos data), pos + length (take n (drop pos data)))"

definition read_I :: "byte list \<Rightarrow> nat \<Rightarrow> (error + nat) \<times> nat" where
  \<comment> \<open>\<^verbatim>\<open>struct.unpack('<I', f.read(4))[0]\<close>\<close>
  "read_I data pos = (case fread data pos 4 of (bs, pos') \<Rightarrow> (unpack_I bs, pos'))"

definition read_bin_chunk :: "byte list \<Rightarrow> nat \<Rightarrow> json \<Rightarrow> (error + json \<times> byte list) \<times> nat" where
  \<comment> \<open>lines 38 to 50: the BIN chunk header and its data\<close>
  "read_bin_chunk data pos scene =
     (case read_I data pos of
        (Inl e, p1) \<Rightarrow> (Inl e, p1)
      | (Inr chunk_length, p1) \<Rightarrow>
          (case fread data p1 4 of (chunk_type, p2) \<Rightarrow>
             if chunk_type \<noteq> bytes_of ''BIN'' @ [0] then (Inl ValueError, p2)
             else (case fread data p2 chunk_length of (bin_data, p3) \<Rightarrow>
                     (Inr (scene, bin_data), p3))))"

definition read_json_chunk ::
  "(byte list \<Rightarrow> error + json) \<Rightarrow> byte list \<Rightarrow> nat \<Rightarrow> (error + json \<times> byte list) \<times> nat" where
  \<comment> \<open>lines 25 to 36: the JSON chunk header and its data, then the BIN chunk\<close>
  "read_json_chunk json_loads data pos =
     (case read_I data pos of
        (Inl e, p1) \<Rightarrow> (Inl e, p1)
      | (Inr chunk_length, p1) \<Rightarrow>
          (case fread data p1 4 of (chunk_type, p2) \<Rightarrow>
             if chunk_type \<noteq> bytes_of ''JSON'' then (Inl ValueError, p2)
             else (case fread data p2 chunk_length of (json_data, p3) \<Rightarrow>
                     (case json_loads json_data of
                        Inl e \<Rightarrow> (Inl e, p3)
                      | Inr scene \<Rightarrow> read_bin_chunk data p3 scene))))"

definition parse_stream ::
  "(byte list \<Rightarrow> error + json) \<Rightarrow> byte list \<Rightarrow> (error + json \<times> byte list) \<times> nat" where
  \<comment> \<open>the body of the \<^verbatim>\<open>with\<close> block: the result, and the file position when it ends\<close>
  "parse_stream json_loads data =
     (case fread data 0 4 of (magic, p1) \<Rightarrow>
        if magic \<noteq> bytes_of ''glTF'' then (Inl ValueError, p1)
        else (case read_I data p1 of
                (Inl e, p2) \<Rightarrow> (Inl e, p2)
              | (Inr version, p2) \<Rightarrow>
                  (case read_I data p2 of
                     (Inl e, p3) \<Rightarrow> (Inl e, p3)
                   | (Inr total_length, p3) \<Rightarrow> read_json_chunk json_loads data p3)))"

definition parse_glb ::
  "(byte list \<Rightarrow> error + json) \<Rightarrow> filesystem \<Rightarrow> string \<Rightarrow> error + json \<times> byte list" where
  "parse_glb json_loads fs filename =
     (case fs filename of
        None \<Rightarrow> Inl OSError
      | Some data \<Rightarrow> fst (parse_stream json_loads data))"

section \<open>extract_mesh_from_glb\<close>

definition find_mesh_data :: "json \<Rightarrow> error + json \<times> json \<times> json \<times> json" where
  \<comment> \<open>lines 56 to 62: the two accessors and their buffer views\<close>
  "find_mesh_data scene =
     and_then (lookup_path scene [JStr ''meshes'', JInt 0, JStr ''primitives'', JInt 0]) (\<lambda>mesh_idx.
     and_then (subscript scene (JStr ''accessors'')) (\<lambda>accessors.
     and_then (lookup_path mesh_idx [JStr ''attributes'', JStr ''POSITION'']) (\<lambda>position.
     and_then (subscript accessors position) (\<lambda>positions_accessor.
     and_then (subscript mesh_idx (JStr ''indices'')) (\<lambda>indices.
     and_then (subscript accessors indices) (\<lambda>indices_accessor.
     and_then (subscript scene (JStr ''bufferViews'')) (\<lambda>views.
     and_then (subscript positions_accessor (JStr ''bufferView'')) (\<lambda>pv.
     and_then (subscript views pv) (\<lambda>positions_view.
     and_then (subscript indices_accessor (JStr ''bufferView'')) (\<lambda>iv.
     and_then (subscript views iv) (\<lambda>indices_view.
     Inr (positions_accessor, indices_accessor, positions_view, indices_view))))))))))))"

definition range_of :: "json \<Rightarrow> nat \<Rightarrow> error + int list" where
  \<comment> \<open>\<^verbatim>\<open>range(0, count, step)\<close> for a count taken from the scene\<close>
  "range_of count step =
     (case py_int_of count of Some n \<Rightarrow> Inr (py_range 0 n step) | None \<Rightarrow> Inl TypeError)"

definition offset_at :: "json \<Rightarrow> int \<Rightarrow> error + int" where
  \<comment> \<open>\<^verbatim>\<open>base + k\<close> as a slice bound: a float fails in the slice, any other non-integer in the sum\<close>
  "offset_at base k = (case py_int_of base of Some a \<Rightarrow> Inr (a + k) | None \<Rightarrow> Inl TypeError)"

fun read_vertices :: "byte list \<Rightarrow> json \<Rightarrow> int list \<Rightarrow> error + vertex list" where
  \<comment> \<open>lines 70 to 73, over the values of \<^verbatim>\<open>range(pos_count)\<close>\<close>
  "read_vertices bin_data pos_offset [] = Inr []"
| "read_vertices bin_data pos_offset (i # rest) =
     and_then (offset_at pos_offset (i * 12)) (\<lambda>offset.
     and_then (unpack_fff (py_slice bin_data offset (offset + 12))) (\<lambda>v.
     and_then (read_vertices bin_data pos_offset rest) (\<lambda>vs. Inr (v # vs))))"

fun read_faces :: "byte list \<Rightarrow> json \<Rightarrow> int list \<Rightarrow> error + face list" where
  \<comment> \<open>lines 80 to 83, over the values of \<^verbatim>\<open>range(0, idx_count, 3)\<close>\<close>
  "read_faces bin_data idx_offset [] = Inr []"
| "read_faces bin_data idx_offset (i # rest) =
     and_then (offset_at idx_offset (i * 4)) (\<lambda>offset.
     and_then (unpack_III (py_slice bin_data offset (offset + 12))) (\<lambda>f.
     and_then (read_faces bin_data idx_offset rest) (\<lambda>fs. Inr (f # fs))))"

definition extract_mesh_from_glb :: "json \<Rightarrow> byte list \<Rightarrow> error + vertex list \<times> face list" where
  "extract_mesh_from_glb scene bin_data =
     and_then (find_mesh_data scene)
       (\<lambda>(positions_accessor, indices_accessor, positions_view, indices_view).
     and_then (dict_get positions_view ''byteOffset'' (JInt 0)) (\<lambda>pos_offset.
     and_then (subscript positions_accessor (JStr ''count'')) (\<lambda>pos_count.
     and_then (range_of pos_count 1) (\<lambda>is.
     and_then (read_vertices bin_data pos_offset is) (\<lambda>vertices.
     and_then (dict_get indices_view ''byteOffset'' (JInt 0)) (\<lambda>idx_offset.
     and_then (subscript indices_accessor (JStr ''count'')) (\<lambda>idx_count.
     and_then (range_of idx_count 3) (\<lambda>js.
     and_then (read_faces bin_data idx_offset js) (\<lambda>faces.
     Inr (vertices, faces))))))))))"

section \<open>Floats: values, the face normal, formatting\<close>

definition float_of_f32 :: "f32 \<Rightarrow> pyfloat" where
  \<comment> \<open>the value of a binary32 pattern, as \<^verbatim>\<open>struct.unpack\<close> returns it\<close>
  "float_of_f32 w =
     (let n = unat w; s = (2 ^ 31 \<le> n); ex = n div 2 ^ 23 mod 256; frac = n mod 2 ^ 23
      in if ex = 255 then (if frac = 0 then Infinite s else NaN)
         else if ex = 0 then Finite s frac (- 149)
         else Finite s (2 ^ 23 + frac) (int ex - 150))"

fun is_positive :: "pyfloat \<Rightarrow> bool" where
  \<comment> \<open>\<^verbatim>\<open>x > 0\<close>\<close>
  "is_positive (Finite s m e) = (\<not> s \<and> 0 < m)"
| "is_positive (Infinite s) = (\<not> s)"
| "is_positive NaN = False"

text \<open>
  The binary64 arithmetic of \<^verbatim>\<open>numpy\<close> (rounding, and the order in which
  \<^verbatim>\<open>np.linalg.norm\<close> sums) and the rounding of \<^verbatim>\<open>struct.pack('<f', x)\<close> for a computed
  \<open>x\<close> are parameters of the model; \<open>f_pack\<close> raises \<open>OverflowError\<close> when a finite \<open>x\<close>
  is too large for binary32.
\<close>

record numerics =
  f_sub :: "pyfloat \<Rightarrow> pyfloat \<Rightarrow> pyfloat"
  f_mul :: "pyfloat \<Rightarrow> pyfloat \<Rightarrow> pyfloat"
  f_div :: "pyfloat \<Rightarrow> pyfloat \<Rightarrow> pyfloat"
  f_norm :: "pyfloat \<times> pyfloat \<times> pyfloat \<Rightarrow> pyfloat"
  f_pack :: "pyfloat \<Rightarrow> error + f32"

type_synonym vec3 = "pyfloat \<times> pyfloat \<times> pyfloat"

definition vec_of :: "vertex \<Rightarrow> vec3" where
  \<comment> \<open>a row of \<^verbatim>\<open>np.array(vertices)\<close>\<close>
  "vec_of v = (case v of (x, y, z) \<Rightarrow> (float_of_f32 x, float_of_f32 y, float_of_f32 z))"

definition vec_sub :: "numerics \<Rightarrow> vec3 \<Rightarrow> vec3 \<Rightarrow> vec3" where
  "vec_sub N a b =
     (case a of (a0, a1, a2) \<Rightarrow> case b of (b0, b1, b2) \<Rightarrow>
        (f_sub N a0 b0, f_sub N a1 b1, f_sub N a2 b2))"

definition face_normal :: "numerics \<Rightarrow> vertex \<Rightarrow> vertex \<Rightarrow> vertex \<Rightarrow> vec3" where
  \<comment> \<open>lines 102 to 116, and 139 to 148\<close>
  "face_normal N v0 v1 v2 =
     (case vec_sub N (vec_of v1) (vec_of v0) of (u0, u1, u2) \<Rightarrow>
      case vec_sub N (vec_of v2) (vec_of v0) of (w0, w1, w2) \<Rightarrow>
        let n0 = f_sub N (f_mul N u1 w2) (f_mul N u2 w1);
            n1 = f_sub N (f_mul N u2 w0) (f_mul N u0 w2);
            n2 = f_sub N (f_mul N u0 w1) (f_mul N u1 w0);
            norm = f_norm N (n0, n1, n2)
        in if is_positive norm
           then (f_div N n0 norm, f_div N n1 norm, f_div N n2 norm)
           else (n0, n1, n2))"

definition digit_char :: "nat \<Rightarrow> char" where
  "digit_char d = char_of (48 + d)"

fun decimal :: "nat \<Rightarrow> string" where
  "decimal n = (if n < 10 then [digit_char n] else decimal (n div 10) @ [digit_char (n mod 10)])"

declare decimal.simps [simp del]

definition round_half_even :: "nat \<Rightarrow> nat \<Rightarrow> nat" where
  \<comment> \<open>\<open>num / den\<close> rounded to the nearest integer, a tie to the even one\<close>
  "round_half_even num den =
     (let q = num div den; r = num mod den
      in if den < 2 * r \<or> (2 * r = den \<and> odd q) then q + 1 else q)"

definition scaled6 :: "nat \<Rightarrow> int \<Rightarrow> nat" where
  \<comment> \<open>\<open>m * 2^e * 10^6\<close>, correctly rounded\<close>
  "scaled6 m e =
     (if 0 \<le> e then m * 2 ^ nat e * 1000000
      else round_half_even (m * 1000000) (2 ^ nat (- e)))"

definition frac6 :: "nat \<Rightarrow> string" where
  "frac6 n = map (\<lambda>k. digit_char (n div 10 ^ k mod 10)) [5, 4, 3, 2, 1, 0]"

definition sign_text :: "bool \<Rightarrow> string" where
  "sign_text s = (if s then ''-'' else [])"

fun format_6f :: "pyfloat \<Rightarrow> string" where
  \<comment> \<open>\<^verbatim>\<open>f"{x:.6f}"\<close>\<close>
  "format_6f (Finite s m e) =
     (let q = scaled6 m e
      in sign_text s @ decimal (q div 1000000) @ ''.'' @ frac6 (q mod 1000000))"
| "format_6f (Infinite s) = sign_text s @ ''inf''"
| "format_6f NaN = ''nan''"

section \<open>write_stl_binary and write_stl_ascii\<close>

text \<open>
  A writer returns the file system with what it wrote to the file before it returned or
  raised (the \<^verbatim>\<open>with\<close> block closes the file either way), and the exception if any.
  \<open>for_each\<close> is a loop whose body writes and may raise. The text file is written as on a
  POSIX host: one byte for each character, the line ends as they are.
\<close>

fun for_each :: "('a \<Rightarrow> 'c list \<times> error option) \<Rightarrow> 'a list \<Rightarrow> 'c list \<times> error option" where
  "for_each body [] = ([], None)"
| "for_each body (x # xs) =
     (case body x of
        (out, Some e) \<Rightarrow> (out, Some e)
      | (out, None) \<Rightarrow> (case for_each body xs of (rest, r) \<Rightarrow> (out @ rest, r)))"

definition np_index :: "'a list \<Rightarrow> nat \<Rightarrow> error + 'a" where
  \<comment> \<open>\<^verbatim>\<open>vertices[i]\<close> on a numpy array, for an index that is not negative\<close>
  "np_index xs i = (if i < length xs then Inr (xs ! i) else Inl IndexError)"

definition face_vertices :: "vertex list \<Rightarrow> face \<Rightarrow> error + vertex \<times> vertex \<times> vertex" where
  \<comment> \<open>line 100: \<^verbatim>\<open>v0, v1, v2 = vertices[face[0]], vertices[face[1]], vertices[face[2]]\<close>\<close>
  "face_vertices vertices f =
     (case f of (a, b, c) \<Rightarrow>
        and_then (np_index vertices a) (\<lambda>v0.
        and_then (np_index vertices b) (\<lambda>v1.
        and_then (np_index vertices c) (\<lambda>v2. Inr (v0, v1, v2)))))"

definition pack_normal :: "numerics \<Rightarrow> vec3 \<Rightarrow> error + byte list" where
  \<comment> \<open>\<^verbatim>\<open>struct.pack('<fff', normal[0], normal[1], normal[2])\<close>\<close>
  "pack_normal N n =
     (case n of (n0, n1, n2) \<Rightarrow>
        and_then (f_pack N n0) (\<lambda>a.
        and_then (f_pack N n1) (\<lambda>b.
        and_then (f_pack N n2) (\<lambda>c. Inr (f32_bytes a @ f32_bytes b @ f32_bytes c)))))"

definition write_vertices :: "vertex list \<Rightarrow> face \<Rightarrow> byte list \<times> error option" where
  \<comment> \<open>lines 122 to 124: one write for each index of the face\<close>
  "write_vertices vertices f =
     (case f of (a, b, c) \<Rightarrow>
        for_each (\<lambda>idx. case np_index vertices idx of
                           Inl e \<Rightarrow> ([], Some e)
                         | Inr v \<Rightarrow> (pack_fff v, None)) [a, b, c])"

definition binary_record :: "numerics \<Rightarrow> vertex list \<Rightarrow> face \<Rightarrow> byte list \<times> error option" where
  \<comment> \<open>lines 99 to 127: the body of the loop over the faces\<close>
  "binary_record N vertices f =
     (case face_vertices vertices f of
        Inl e \<Rightarrow> ([], Some e)
      | Inr (v0, v1, v2) \<Rightarrow>
          (case pack_normal N (face_normal N v0 v1 v2) of
             Inl e \<Rightarrow> ([], Some e)
           | Inr nb \<Rightarrow>
               (case write_vertices vertices f of
                  (vb, Some e) \<Rightarrow> (nb @ vb, Some e)
                | (vb, None) \<Rightarrow> (nb @ vb @ pack_H_zero, None))))"

definition binary_header :: "byte list" where
  "binary_header = bytes_of ''Converted from glTF/GBL format'' @ replicate 50 0"

definition write_stl_binary ::
  "numerics \<Rightarrow> vertex list \<Rightarrow> face list \<Rightarrow> filesystem \<Rightarrow> string \<Rightarrow> filesystem \<times> error option" where
  "write_stl_binary N vertices faces fs filename =
     (case pack_I (length faces) of
        Inl e \<Rightarrow> (fs(filename \<mapsto> binary_header), Some e)
      | Inr count \<Rightarrow>
          (case for_each (binary_record N vertices) faces of
             (records, r) \<Rightarrow> (fs(filename \<mapsto> binary_header @ count @ records), r)))"

definition newline :: string where
  "newline = [CHR 0x0A]"

definition normal_line :: "vec3 \<Rightarrow> string" where
  "normal_line n =
     (case n of (n0, n1, n2) \<Rightarrow>
        ''facet normal '' @ format_6f n0 @ '' '' @ format_6f n1 @ '' '' @ format_6f n2 @ newline)"

definition vertex_line :: "vertex \<Rightarrow> string" where
  "vertex_line v =
     (case vec_of v of (x, y, z) \<Rightarrow>
        ''    vertex '' @ format_6f x @ '' '' @ format_6f y @ '' '' @ format_6f z @ newline)"

definition ascii_vertices :: "vertex list \<Rightarrow> face \<Rightarrow> string \<times> error option" where
  \<comment> \<open>lines 153 to 155\<close>
  "ascii_vertices vertices f =
     (case f of (a, b, c) \<Rightarrow>
        for_each (\<lambda>idx. case np_index vertices idx of
                           Inl e \<Rightarrow> ([], Some e)
                         | Inr v \<Rightarrow> (vertex_line v, None)) [a, b, c])"

definition ascii_facet :: "numerics \<Rightarrow> vertex list \<Rightarrow> face \<Rightarrow> string \<times> error option" where
  \<comment> \<open>lines 137 to 158: the body of the loop over the faces\<close>
  "ascii_facet N vertices f =
     (case face_vertices vertices f of
        Inl e \<Rightarrow> ([], Some e)
      | Inr (v0, v1, v2) \<Rightarrow>
          (let opening = normal_line (face_normal N v0 v1 v2) @ ''  outer loop'' @ newline
           in case ascii_vertices vertices f of
                (vl, Some e) \<Rightarrow> (opening @ vl, Some e)
              | (vl, None) \<Rightarrow>
                  (opening @ vl @ ''  endloop'' @ newline @ ''endfacet'' @ newline, None)))"

definition write_stl_ascii ::
  "numerics \<Rightarrow> vertex list \<Rightarrow> face list \<Rightarrow> filesystem \<Rightarrow> string \<Rightarrow> filesystem \<times> error option" where
  "write_stl_ascii N vertices faces fs filename =
     (let opening = ''solid glTF_converted'' @ newline
      in case for_each (ascii_facet N vertices) faces of
           (facets, Some e) \<Rightarrow> (fs(filename \<mapsto> bytes_of (opening @ facets)), Some e)
         | (facets, None) \<Rightarrow>
             (fs(filename \<mapsto> bytes_of (opening @ facets @ ''endsolid glTF_converted'' @ newline)),
              None))"

section \<open>simple_extraction\<close>

definition unpack_floats :: "byte list \<Rightarrow> f32 list" where
  \<comment> \<open>\<^verbatim>\<open>struct.unpack('f' * (len(bs) // 4), bs)\<close> on a little-endian host\<close>
  "unpack_floats bs = map (\<lambda>k. f32_of (take 4 (drop (4 * k) bs))) [0 ..< length bs div 4]"

fun group_vertices :: "f32 list \<Rightarrow> int list \<Rightarrow> error + vertex list" where
  \<comment> \<open>lines 219 and 220, over the values of \<^verbatim>\<open>range(0, len(floats) - 2, 3)\<close>\<close>
  "group_vertices floats [] = Inr []"
| "group_vertices floats (i # rest) =
     and_then (py_index floats i) (\<lambda>x.
     and_then (py_index floats (i + 1)) (\<lambda>y.
     and_then (py_index floats (i + 2)) (\<lambda>z.
     and_then (group_vertices floats rest) (\<lambda>vs. Inr ((x, y, z) # vs)))))"

definition fan_faces :: "nat \<Rightarrow> face list" where
  \<comment> \<open>lines 227 to 229, for \<^verbatim>\<open>len(vertices) = n\<close>\<close>
  "fan_faces n = map (\<lambda>i. (0, nat i, nat (i + 1))) (py_range 1 (int n - 1) 1)"

definition pack_fff_zero :: "byte list" where
  \<comment> \<open>\<^verbatim>\<open>struct.pack('<fff', 0, 0, 0)\<close>\<close>
  "pack_fff_zero = replicate 12 0"

definition fallback_record :: "vertex list \<Rightarrow> face \<Rightarrow> byte list \<times> error option" where
  \<comment> \<open>lines 241 to 245: the body of the loop over the faces\<close>
  "fallback_record vertices f =
     (case write_vertices vertices f of
        (vb, Some e) \<Rightarrow> (pack_fff_zero @ vb, Some e)
      | (vb, None) \<Rightarrow> (pack_fff_zero @ vb @ pack_H_zero, None))"

definition fallback_header :: "byte list" where
  "fallback_header = bytes_of ''Simple extraction'' @ replicate 63 0"

definition derive_vertices :: "byte list \<Rightarrow> error + vertex list" where
  \<comment> \<open>lines 215 to 220: the file's bytes as floats, grouped three at a time\<close>
  "derive_vertices data =
     (let floats = unpack_floats
            (py_slice data 0 (int (length data) - int (length data) mod 4))
      in group_vertices floats (py_range 0 (int (length floats) - 2) 3))"

definition simple_extraction :: "filesystem \<Rightarrow> string \<Rightarrow> string \<Rightarrow> filesystem \<times> error option" where
  "simple_extraction fs input_file output_file =
     (case fs input_file of
        None \<Rightarrow> (fs, Some OSError)
      | Some data \<Rightarrow>
          (case derive_vertices data of
             Inl e \<Rightarrow> (fs, Some e)
           | Inr all_vertices \<Rightarrow>
               if length all_vertices < 3 then (fs, None)
               else
                 (let vertices = take 100 all_vertices;
                      faces = take 98 (fan_faces (length all_vertices))
                  in case pack_I (length faces) of
                       Inl e \<Rightarrow> (fs(output_file \<mapsto> fallback_header), Some e)
                     | Inr count \<Rightarrow>
                         (case for_each (fallback_record vertices) faces of
                            (records, r) \<Rightarrow>
                              (fs(output_file \<mapsto> fallback_header @ count @ records), r)))))"

section \<open>main\<close>

text \<open>
  Console output is not part of the model; the expressions that the \<^verbatim>\<open>print\<close> calls
  evaluate are, where they can raise (lines 179 and 184). \<open>primary\<close> is the body of the
  \<^verbatim>\<open>try\<close> block.
\<close>

datatype run = Usage | Converted | Fallback error "error option"

definition primary ::
  "numerics \<Rightarrow> (byte list \<Rightarrow> error + json) \<Rightarrow> filesystem \<Rightarrow> string \<Rightarrow> string \<Rightarrow> bool
     \<Rightarrow> filesystem \<times> error option" where
  "primary N json_loads fs input_file output_file use_ascii =
     (case parse_glb json_loads fs input_file of
        Inl e \<Rightarrow> (fs, Some e)
      | Inr (scene, bin_data) \<Rightarrow>
          (case and_then (dict_get scene ''meshes'' (JArr [])) py_len of
             Inl e \<Rightarrow> (fs, Some e)
           | Inr n \<Rightarrow>
               (case extract_mesh_from_glb scene bin_data of
                  Inl e \<Rightarrow> (fs, Some e)
                | Inr (vertices, faces) \<Rightarrow>
                    if vertices = [] then (fs, Some IndexError)
                    else if use_ascii then write_stl_ascii N vertices faces fs output_file
                    else write_stl_binary N vertices faces fs output_file)))"

definition main ::
  "numerics \<Rightarrow> (byte list \<Rightarrow> error + json) \<Rightarrow> filesystem \<Rightarrow> string list \<Rightarrow> filesystem \<times> run" where
  "main N json_loads fs argv =
     (if length argv < 3 then (fs, Usage)
      else
        (let input_file = argv ! 1; output_file = argv ! 2;
             use_ascii = (3 < length argv \<and> argv ! 3 = ''--ascii'')
         in case primary N json_loads fs input_file output_file use_ascii of
              (fs', None) \<Rightarrow> (fs', Converted)
            | (fs', Some e) \<Rightarrow>
                (case simple_extraction fs' input_file output_file of
                   (fs'', r) \<Rightarrow> (fs'', Fallback e r))))"

section \<open>The shape of a formatted number\<close>

definition is_digit :: "char \<Rightarrow> bool" where
  "is_digit c = (c \<in> set ''0123456789'')"

definition fixed6 :: "string \<Rightarrow> bool" where
  \<comment> \<open>an optional minus sign, at least one digit, a point, six digits, and nothing else\<close>
  "fixed6 t =
     (let body = (if take 1 t = ''-'' then drop 1 t else t);
          whole = takeWhile is_digit body;
          rest = dropWhile is_digit body
      in whole \<noteq> [] \<and> take 1 rest = ''.'' \<and> length rest = 7 \<and> list_all is_digit (drop 1 rest))"

section \<open>Example inputs\<close>

text \<open>
  The scene of a file with one mesh: accessor 0 holds the positions, at offset 0 of the
  payload, accessor 1 the indices, at offset 12. \<open>example_scene p n\<close> declares \<open>p\<close>
  positions and \<open>n\<close> indices.
\<close>

definition accessor :: "int \<Rightarrow> int \<Rightarrow> json" where
  "accessor view n = JObj [(''bufferView'', JInt view), (''count'', JInt n)]"

definition example_scene :: "int \<Rightarrow> int \<Rightarrow> json" where
  "example_scene positions indices =
     JObj [(''meshes'', JArr [JObj [(''primitives'', JArr [JObj
              [(''attributes'', JObj [(''POSITION'', JInt 0)]), (''indices'', JInt 1)]])]]),
           (''accessors'', JArr [accessor 0 positions, accessor 1 indices]),
           (''bufferViews'', JArr [JObj [], JObj [(''byteOffset'', JInt 12)]])]"

definition example_payload :: "byte list" where
  \<comment> \<open>the vertex (0.0, 0.0, 0.0), then the twelve 32-bit words 0, 1, ..., 11\<close>
  "example_payload =
     [0, 0, 0, 0,  0, 0, 0, 0,  0, 0, 0, 0,
      0, 0, 0, 0,  1, 0, 0, 0,  2, 0, 0, 0,  3, 0, 0, 0,  4, 0, 0, 0,  5, 0, 0, 0,
      6, 0, 0, 0,  7, 0, 0, 0,  8, 0, 0, 0,  9, 0, 0, 0,  10, 0, 0, 0,  11, 0, 0, 0]"

definition glb_container :: "nat \<Rightarrow> nat \<Rightarrow> byte list \<Rightarrow> byte list \<Rightarrow> byte list" where
  \<comment> \<open>the container format that \<open>parse_glb\<close> reads: a header and two chunks\<close>
  "glb_container version total_length json_data payload =
     bytes_of ''glTF'' @ le_bytes4 version @ le_bytes4 total_length
       @ le_bytes4 (length json_data) @ bytes_of ''JSON'' @ json_data
       @ le_bytes4 (length payload) @ bytes_of ''BIN'' @ [0] @ payload"

definition glb_file :: "byte list \<Rightarrow> byte list" where
  \<comment> \<open>a container with a four-byte JSON chunk and the given payload\<close>
  "glb_file payload = glb_container 2 (32 + length payload) (bytes_of ''{}  '') payload"

definition square_bytes :: "byte list" where
  \<comment> \<open>twelve floats: the corners (0,0,0), (1,0,0), (1,1,0), (0,1,0)\<close>
  "square_bytes =
     [0, 0, 0, 0,  0, 0, 0, 0,  0, 0, 0, 0,
      0, 0, 0x80, 0x3F,  0, 0, 0, 0,  0, 0, 0, 0,
      0, 0, 0x80, 0x3F,  0, 0, 0x80, 0x3F,  0, 0, 0, 0,
      0, 0, 0, 0,  0, 0, 0x80, 0x3F,  0, 0, 0, 0]"

text \<open>
  An instance of the float operations for the examples: subtraction, multiplication and
  division are exact on floats whose values are integers, as binary64 arithmetic is on the
  small integers of the examples, and give NaN where an operand or the exact result is not
  an integer. The norm is given for the squared lengths 0 and 1, and the packing for the
  values 0.0 and 1.0; every other result is a NaN.
\<close>

definition float_int :: "pyfloat \<Rightarrow> int option" where
  "float_int x =
     (case x of
        Finite s m e \<Rightarrow>
          (if 0 \<le> e then Some ((if s then - 1 else 1) * int (m * 2 ^ nat e))
           else if 2 ^ nat (- e) dvd m then Some ((if s then - 1 else 1) * int (m div 2 ^ nat (- e)))
           else None)
      | _ \<Rightarrow> None)"

definition int_float :: "int option \<Rightarrow> pyfloat" where
  "int_float r = (case r of Some i \<Rightarrow> Finite (i < 0) (nat \<bar>i\<bar>) 0 | None \<Rightarrow> NaN)"

definition int_op :: "(int \<Rightarrow> int \<Rightarrow> int option) \<Rightarrow> pyfloat \<Rightarrow> pyfloat \<Rightarrow> pyfloat" where
  "int_op f x y =
     (case float_int x of
        Some a \<Rightarrow> (case float_int y of Some b \<Rightarrow> int_float (f a b) | None \<Rightarrow> NaN)
      | None \<Rightarrow> NaN)"

definition int_norm :: "vec3 \<Rightarrow> pyfloat" where
  "int_norm v =
     (case v of (x, y, z) \<Rightarrow>
        (case (float_int x, float_int y, float_int z) of
           (Some a, Some b, Some c) \<Rightarrow>
             (if a * a + b * b + c * c = 0 then int_float (Some 0)
              else if a * a + b * b + c * c = 1 then int_float (Some 1)
              else NaN)
         | _ \<Rightarrow> NaN))"

definition int_pack :: "pyfloat \<Rightarrow> error + f32" where
  "int_pack x =
     (case float_int x of
        Some i \<Rightarrow> (if i = 0 then Inr 0 else if i = 1 then Inr 0x3F800000 else Inr 0x7FC00000)
      | None \<Rightarrow> Inr 0x7FC00000)"

definition example_numerics :: numerics where
  "example_numerics =
     \<lparr>f_sub = int_op (\<lambda>a b. Some (a - b)),
      f_mul = int_op (\<lambda>a b. Some (a * b)),
      f_div = int_op (\<lambda>a b. if b \<noteq> 0 \<and> b dvd a then Some (a div b) else None),
      f_norm = int_norm,
      f_pack = int_pack\<rparr>"

section \<open>The magic tag\<close>

lemma fread_start: "fread data 0 4 = (take 4 data, min 4 (length data))"
  by (simp add: fread_def min_def)

text \<open>
  C6. A file whose first four bytes are not \<^verbatim>\<open>glTF\<close> makes \<open>parse_glb\<close> raise
  \<open>ValueError\<close>, and the file position is then at most 4: no byte of a chunk header (they
  start at offset 12) or of a chunk has been read.
\<close>

theorem bad_magic_raises:
  assumes "fs filename = Some data" and "take 4 data \<noteq> bytes_of ''glTF''"
  shows "parse_glb json_loads fs filename = Inl ValueError
    \<and> parse_stream json_loads data = (Inl ValueError, min 4 (length data))"
  using assms by (simp add: parse_glb_def parse_stream_def fread_start)

theorem bad_magic_raises_witness:
  "parse_glb (\<lambda>bs. Inr JNull) [''model.glb'' \<mapsto> bytes_of ''glTX_and_the_rest_of_the_file'']
       ''model.glb'' = Inl ValueError
    \<and> parse_stream (\<lambda>bs. Inr JNull) (bytes_of ''glTX_and_the_rest_of_the_file'')
       = (Inl ValueError, 4)"
  using bad_magic_raises [of "[''model.glb'' \<mapsto> bytes_of ''glTX_and_the_rest_of_the_file'']"
      "''model.glb''" "bytes_of ''glTX_and_the_rest_of_the_file''" "\<lambda>bs. Inr JNull"]
  by (simp add: bytes_of_def)

section \<open>Facts about the library model\<close>

lemma and_then_Inr: "and_then m f = Inr y \<longleftrightarrow> (\<exists>x. m = Inr x \<and> f x = Inr y)"
  by (cases m) auto

lemma ceil_div_nonpos: "stop \<le> i \<Longrightarrow> 0 < (s::int) \<Longrightarrow> (stop - i + s - 1) div s \<le> 0"
proof (cases "stop - i + s - 1 < 0")
  case True
  assume "0 < s"
  with True have "(stop - i + s - 1) div s < 0" by (simp add: pos_imp_zdiv_neg_iff)
  then show ?thesis by simp
next
  case False
  assume "stop \<le> i" "0 < s"
  with False have "(stop - i + s - 1) div s = 0" by (intro div_pos_pos_trivial) auto
  then show ?thesis by simp
qed

lemma ceil_div_step:
  "0 < (s::int) \<Longrightarrow> (stop - i + s - 1) div s = (stop - (i + s) + s - 1) div s + 1"
proof -
  assume s: "0 < s"
  have "stop - i + s - 1 = (stop - (i + s) + s - 1) + s" by simp
  then show ?thesis using s by (metis div_add_self2 less_irrefl)
qed

lemma ceil_div_nonneg: "i < stop \<Longrightarrow> 0 < (s::int) \<Longrightarrow> 0 \<le> (stop - (i + s) + s - 1) div s"
  by (simp add: pos_imp_zdiv_nonneg_iff)

lemma py_range_map:
  "0 < step \<Longrightarrow> py_range i stop step =
     map (\<lambda>k. i + int k * int step) [0 ..< nat ((stop - i + int step - 1) div int step)]"
proof (induction i stop step rule: py_range.induct)
  case (1 i stop step)
  show ?case
  proof (cases "i < stop")
    case False
    with 1(2) have "(stop - i + int step - 1) div int step \<le> 0"
      by (intro ceil_div_nonpos) auto
    with False show ?thesis by (simp add: py_range.simps)
  next
    case True
    let ?n' = "nat ((stop - (i + int step) + int step - 1) div int step)"
    have ih: "py_range (i + int step) stop step =
        map (\<lambda>k. i + int step + int k * int step) [0 ..< ?n']"
      using 1 True by simp
    have n: "nat ((stop - i + int step - 1) div int step) = Suc ?n'"
      using ceil_div_step [of "int step" stop i] ceil_div_nonneg [of i stop "int step"] True 1(2)
      by (simp add: nat_add_distrib)
    have "map (\<lambda>k. i + int k * int step) [0 ..< Suc ?n'] =
        i # map (\<lambda>k. i + int step + int k * int step) [0 ..< ?n']"
      by (simp add: upt_conv_Cons map_Suc_upt [symmetric] algebra_simps del: upt_Suc)
    with ih n True 1(2) show ?thesis
      by (subst py_range.simps) simp
  qed
qed

lemma py_range_3: "py_range 0 n 3 = map (\<lambda>k. 3 * int k) [0 ..< nat ((n + 2) div 3)]"
  using py_range_map [of 3 0 n] by (simp add: mult.commute add.commute)

lemma py_range_from_1: "py_range 1 n 1 = map (\<lambda>k. 1 + int k) [0 ..< nat (n - 1)]"
  using py_range_map [of 1 1 n] by simp

lemma py_range_from_0: "py_range 0 n 1 = map int [0 ..< nat n]"
  using py_range_map [of 1 0 n] by simp

lemma py_index_nonneg: "0 \<le> i \<Longrightarrow> i < int (length xs) \<Longrightarrow> py_index xs i = Inr (xs ! nat i)"
  by (simp add: py_index_def)

lemma for_each_ok:
  "(\<And>x. x \<in> set xs \<Longrightarrow> body x = (g x, None)) \<Longrightarrow>
   for_each body xs = (concat (map g xs), None)"
  by (induction xs) simp_all

lemma for_each_fails:
  "x \<in> set xs \<Longrightarrow> snd (body x) = Some e \<Longrightarrow> \<exists>e'. snd (for_each body xs) = Some e'"
proof (induction xs)
  case Nil
  then show ?case by simp
next
  case (Cons y ys)
  show ?case
  proof (cases "body y")
    case (Pair out r)
    show ?thesis
    proof (cases r)
      case (Some e')
      with Pair show ?thesis by simp
    next
      case None
      with Pair Cons.prems have "x \<in> set ys" by auto
      with Cons have "\<exists>e'. snd (for_each body ys) = Some e'" by simp
      with Pair None show ?thesis by (auto split: prod.splits)
    qed
  qed
qed

lemma take_upt_min: "take k [0 ..< m] = [0 ..< min k m]"
  by (cases "k \<le> m") (simp_all add: min_def)

section \<open>The number of decoded triangles\<close>

lemma read_faces_nth:
  "read_faces bin_data idx_offset is = Inr fs \<Longrightarrow>
   length fs = length is \<and>
   (\<forall>k < length is. \<exists>off. offset_at idx_offset (is ! k * 4) = Inr off
       \<and> unpack_III (py_slice bin_data off (off + 12)) = Inr (fs ! k))"
proof (induction "is" arbitrary: fs)
  case Nil
  then show ?case by simp
next
  case (Cons i rest)
  from Cons.prems obtain off f fs' where
    h: "offset_at idx_offset (i * 4) = Inr off"
       "unpack_III (py_slice bin_data off (off + 12)) = Inr f"
       "read_faces bin_data idx_offset rest = Inr fs'" "fs = f # fs'"
    by (auto simp: and_then_Inr)
  from Cons.IH [OF h(3)] h show ?case
    by (auto simp: nth_Cons split: nat.splits)
qed

lemma example_find:
  "find_mesh_data (example_scene p n) =
     Inr (accessor 0 p, accessor 1 n, JObj [], JObj [(''byteOffset'', JInt 12)])"
  by (simp add: find_mesh_data_def example_scene_def accessor_def py_index_def)

lemma ten_indices_four_faces:
  "extract_mesh_from_glb (example_scene 1 10) example_payload
      = Inr ([(0, 0, 0)], [(0, 1, 2), (3, 4, 5), (6, 7, 8), (9, 10, 11)])"
  by (simp add: extract_mesh_from_glb_def example_find accessor_def range_of_def py_range.simps
      offset_at_def example_payload_def py_slice_def slice_bound_def unpack_fff_def
      unpack_III_def f32_of_def le_nat_def)

lemma ten_indices_short_payload:
  "extract_mesh_from_glb (example_scene 1 10) (take 52 example_payload) = Inl StructError"
  by (simp add: extract_mesh_from_glb_def example_find accessor_def range_of_def py_range.simps
      offset_at_def example_payload_def py_slice_def slice_bound_def unpack_fff_def
      unpack_III_def f32_of_def le_nat_def)

text \<open>
  What the loop over the indices returns. The loop over \<^verbatim>\<open>range(0, idx_count, 3)\<close> runs once
  for every started group of three, so a successful extraction returns \<open>\<lceil>n / 3\<rceil>\<close> triangles
  for a declared count \<open>n\<close> (none when \<open>n \<le> 0\<close>), the \<open>k\<close>-th unpacked from the twelve bytes
  at \<open>idx_offset + 12 * k\<close>. The count is \<open>n / 3\<close> when \<open>n\<close> is a multiple of 3.
\<close>

theorem faces_count_is_ceiling:
  assumes "extract_mesh_from_glb scene bin_data = Inr (vertices, faces)"
      and "find_mesh_data scene = Inr (pa, ia, pv, iv)"
      and "subscript ia (JStr ''count'') = Inr idx_count"
      and "py_int_of idx_count = Some n"
      and "dict_get iv ''byteOffset'' (JInt 0) = Inr idx_offset"
  shows "length faces = nat ((n + 2) div 3)
    \<and> (0 \<le> n \<and> n mod 3 = 0 \<longrightarrow> int (length faces) = n div 3)
    \<and> (\<forall>k < length faces. \<exists>off. offset_at idx_offset (12 * int k) = Inr off
          \<and> unpack_III (py_slice bin_data off (off + 12)) = Inr (faces ! k))"
proof -
  from assms have rf: "read_faces bin_data idx_offset (py_range 0 n 3) = Inr faces"
    by (auto simp: extract_mesh_from_glb_def and_then_Inr range_of_def split: option.splits)
  note nth = read_faces_nth [OF rf]
  have len: "length faces = nat ((n + 2) div 3)"
    using nth by (simp add: py_range_3)
  have each: "\<exists>off. offset_at idx_offset (12 * int k) = Inr off
          \<and> unpack_III (py_slice bin_data off (off + 12)) = Inr (faces ! k)"
    if "k < length faces" for k
  proof -
    from that len have "py_range 0 n 3 ! k * 4 = 12 * int k"
      by (simp add: py_range_3)
    with nth that show ?thesis by metis
  qed
  have exact: "int (length faces) = n div 3" if "0 \<le> n" "n mod 3 = 0"
  proof -
    from that have "(n + 2) div 3 = n div 3" by presburger
    with len that show ?thesis by simp
  qed
  show ?thesis
  proof (intro conjI allI impI)
    show "length faces = nat ((n + 2) div 3)" by (rule len)
  next
    assume "0 \<le> n \<and> n mod 3 = 0"
    then show "int (length faces) = n div 3" using exact by simp
  next
    fix k assume "k < length faces"
    then show "\<exists>off. offset_at idx_offset (12 * int k) = Inr off
          \<and> unpack_III (py_slice bin_data off (off + 12)) = Inr (faces ! k)"
      by (rule each)
  qed
qed

theorem faces_count_is_ceiling_witness:
  "extract_mesh_from_glb (example_scene 1 10) example_payload
      = Inr ([(0, 0, 0)], [(0, 1, 2), (3, 4, 5), (6, 7, 8), (9, 10, 11)])
    \<and> subscript (accessor 1 10) (JStr ''count'') = Inr (JInt 10)
    \<and> length [(0, 1, 2), (3, 4, 5), (6, 7, 8), (9, 10, 11 :: nat)] = nat ((10 + 2) div 3)"
  using faces_count_is_ceiling [OF ten_indices_four_faces example_find,
      where idx_count = "JInt 10" and n = 10 and idx_offset = "JInt 12"]
    ten_indices_four_faces
  by (simp add: accessor_def)

text \<open>
  C1. The specification has the extractor drop a last partial group of indices, so that ten
  declared indices give three triangles; the fallback extractor does drop a partial group of
  floats (\<^verbatim>\<open>range(0, len(floats) - 2, 3)\<close>), the loop over the indices does not. With ten
  declared indices it returns four triangles, the fourth made of index 9 and the two words
  after it in the payload, and when the payload ends with the tenth index it raises.
\<close>

theorem ten_indices_decoded:
  "extract_mesh_from_glb (example_scene 1 10) example_payload
      = Inr ([(0, 0, 0)], [(0, 1, 2), (3, 4, 5), (6, 7, 8), (9, 10, 11)])
    \<and> extract_mesh_from_glb (example_scene 1 10) (take 52 example_payload) = Inl StructError"
  using ten_indices_four_faces ten_indices_short_payload by simp

section \<open>The fallback extractor\<close>

lemma group_vertices_ok:
  "(\<And>i. i \<in> set is \<Longrightarrow> 0 \<le> i \<and> i + 2 < int (length floats)) \<Longrightarrow>
   group_vertices floats is =
     Inr (map (\<lambda>i. (floats ! nat i, floats ! nat (i + 1), floats ! nat (i + 2))) is)"
proof (induction "is")
  case Nil
  show ?case by simp
next
  case (Cons a rest)
  have a: "0 \<le> a" "a + 2 < int (length floats)"
    using Cons.prems [of a] by simp_all
  have rest: "group_vertices floats rest =
      Inr (map (\<lambda>i. (floats ! nat i, floats ! nat (i + 1), floats ! nat (i + 2))) rest)"
    using Cons by simp
  from a show ?case
    by (simp add: py_index_nonneg rest)
qed

lemma length_unpack_floats: "length (unpack_floats bs) = length bs div 4"
  by (simp add: unpack_floats_def)

lemma whole_floats:
  "py_slice data 0 (int (length data) - int (length data) mod 4)
     = take (length data - length data mod 4) data"
proof -
  have "int (length data) - int (length data) mod 4 = int (length data - length data mod 4)"
    by (simp add: of_nat_diff zmod_int)
  then show ?thesis
    by (simp add: py_slice_def slice_bound_def del: of_nat_diff)
qed

lemma derive_vertices_ok:
  "\<exists>vs. derive_vertices data = Inr vs \<and> length vs = length data div 12"
proof -
  let ?fl = "unpack_floats (take (length data - length data mod 4) data)"
  have len: "length ?fl = length data div 4"
    by (simp add: length_unpack_floats minus_mod_eq_mult_div)
  have r: "py_range 0 (int (length ?fl) - 2) 3 = map (\<lambda>k. 3 * int k) [0 ..< length ?fl div 3]"
    by (simp add: py_range_3 nat_div_distrib)
  have "group_vertices ?fl (py_range 0 (int (length ?fl) - 2) 3) =
      Inr (map (\<lambda>i. (?fl ! nat i, ?fl ! nat (i + 1), ?fl ! nat (i + 2)))
            (py_range 0 (int (length ?fl) - 2) 3))"
  proof (rule group_vertices_ok)
    fix i assume "i \<in> set (py_range 0 (int (length ?fl) - 2) 3)"
    then obtain k where "i = 3 * int k" "k < length ?fl div 3"
      unfolding r by auto
    then show "0 \<le> i \<and> i + 2 < int (length ?fl)" by auto
  qed
  moreover have "length (map (\<lambda>i. (?fl ! nat i, ?fl ! nat (i + 1), ?fl ! nat (i + 2)))
            (py_range 0 (int (length ?fl) - 2) 3)) = length data div 12"
    unfolding r by (simp add: len div_mult2_eq)
  ultimately show ?thesis
    unfolding derive_vertices_def whole_floats Let_def by blast
qed

lemma write_vertices_ok:
  "a < length vs \<Longrightarrow> b < length vs \<Longrightarrow> c < length vs \<Longrightarrow>
   write_vertices vs (a, b, c) = (pack_fff (vs ! a) @ pack_fff (vs ! b) @ pack_fff (vs ! c), None)"
  by (simp add: write_vertices_def np_index_def)

lemma fallback_record_ok:
  "a < length vs \<Longrightarrow> b < length vs \<Longrightarrow> c < length vs \<Longrightarrow>
   fallback_record vs (a, b, c) =
     (pack_fff_zero @ pack_fff (vs ! a) @ pack_fff (vs ! b) @ pack_fff (vs ! c) @ pack_H_zero, None)"
  by (simp add: fallback_record_def write_vertices_ok)

lemma fan_faces_map: "fan_faces n = map (\<lambda>k. (0, Suc k, Suc (Suc k))) [0 ..< n - 2]"
proof -
  have "nat (int n - 1 - 1) = n - 2" by simp
  then show ?thesis
    unfolding fan_faces_def py_range_from_1 by (simp add: nat_add_distrib)
qed

lemma take_fan_faces:
  "take 98 (fan_faces n) = map (\<lambda>k. (0, Suc k, Suc (Suc k))) [0 ..< min 98 (n - 2)]"
  by (simp only: fan_faces_map take_map take_upt_min)

lemma fallback_file:
  assumes "fs input_file = Some data" and "derive_vertices data = Inr all" and "3 \<le> length all"
  shows "simple_extraction fs input_file output_file =
    (fs(output_file \<mapsto> fallback_header @ le_bytes4 (min 98 (length all - 2)) @
        concat (map (\<lambda>k. pack_fff_zero @ pack_fff (take 100 all ! 0) @
                        pack_fff (take 100 all ! Suc k) @ pack_fff (take 100 all ! Suc (Suc k)) @
                        pack_H_zero)
                 [0 ..< min 98 (length all - 2)])),
     None)"
proof -
  let ?vs = "take 100 all"
  let ?faces = "take 98 (fan_faces (length all))"
  let ?g = "\<lambda>f. case f of (a, b, c) \<Rightarrow>
      pack_fff_zero @ pack_fff (?vs ! a) @ pack_fff (?vs ! b) @ pack_fff (?vs ! c) @ pack_H_zero"
  have len: "length ?faces = min 98 (length all - 2)"
    by (simp add: take_fan_faces)
  have count: "pack_I (length ?faces) = Inr (le_bytes4 (min 98 (length all - 2)))"
    unfolding len by (simp add: pack_I_def min_def)
  have "for_each (fallback_record ?vs) ?faces = (concat (map ?g ?faces), None)"
  proof (rule for_each_ok)
    fix f assume "f \<in> set ?faces"
    then obtain k where k: "f = (0, Suc k, Suc (Suc k))" "k < 98" "k < length all - 2"
      unfolding take_fan_faces by auto
    then have "0 < length ?vs" "Suc k < length ?vs" "Suc (Suc k) < length ?vs"
      using assms(3) by auto
    then show "fallback_record ?vs f = (?g f, None)"
      unfolding k(1) by (simp add: fallback_record_ok)
  qed
  moreover have "concat (map ?g ?faces) =
      concat (map (\<lambda>k. pack_fff_zero @ pack_fff (?vs ! 0) @ pack_fff (?vs ! Suc k) @
                      pack_fff (?vs ! Suc (Suc k)) @ pack_H_zero) [0 ..< min 98 (length all - 2)])"
    unfolding take_fan_faces by (simp add: comp_def)
  ultimately show ?thesis
    using assms count by (simp add: simple_extraction_def Let_def)
qed

lemma length_pack_fff: "length (pack_fff v) = 12"
  by (cases v) (simp add: pack_fff_def pack_f_def le_bytes4_def)

lemma fallback_header_length: "length fallback_header = 80"
  by (simp add: fallback_header_def bytes_of_def)

lemma square_length: "length square_bytes = 48"
  by (simp add: square_bytes_def)

lemma upt_12: "[0 ..< 12] = [0, 1, 2, 3, 4, 5, 6, 7, 8, 9, 10, 11::nat]"
  by (simp add: upt_conv_Cons)

lemma square_floats:
  "unpack_floats square_bytes =
     [0, 0, 0, 0x3F800000, 0, 0, 0x3F800000, 0x3F800000, 0, 0, 0x3F800000, 0]"
  unfolding unpack_floats_def square_length
  by (simp add: upt_12 square_bytes_def f32_of_def le_nat_def)

lemma range_10_by_3: "py_range 0 10 3 = [0, 3, 6, 9]"
  by (simp add: py_range.simps)

lemma square_vertices:
  "derive_vertices square_bytes =
     Inr [(0, 0, 0), (0x3F800000, 0, 0), (0x3F800000, 0x3F800000, 0), (0, 0x3F800000, 0)]"
proof -
  have "take (length square_bytes - length square_bytes mod 4) square_bytes = square_bytes"
    by (simp add: square_length)
  then show ?thesis
    unfolding derive_vertices_def whole_floats Let_def
    by (simp add: square_floats range_10_by_3 py_index_def)
qed

lemma pack_f_signalling: "pack_f 0x7F800001 = [1, 0, 0xC0, 0x7F]"
  by (simp add: pack_f_def quiet_nan_def le_bytes4_def)

lemma two_upt: "[0 ..< 2] = [0, Suc 0]"
  by (simp add: upt_conv_Cons)

lemma fan_of_four: "take 98 (fan_faces 4) = [(0, 1, 2), (0, 2, 3)]"
  unfolding take_fan_faces by (simp add: two_upt numeral_2_eq_2 numeral_3_eq_3)

lemma fallback_record_normal: "take 12 (fst (fallback_record vertices f)) = replicate 12 0"
  by (cases "write_vertices vertices f")
    (auto simp: fallback_record_def pack_fff_zero_def split: option.splits)

lemma twelve_zeros: "replicate 12 (0 :: byte) = [0, 0, 0, 0, 0, 0, 0, 0, 0, 0, 0, 0]"
  by (simp add: numeral_eq_Suc)

lemma zero_normal_value:
  "unpack_fff (replicate 12 0) = Inr (0, 0, 0)
   \<and> vec_of (0, 0, 0) = (Finite False 0 (- 149), Finite False 0 (- 149), Finite False 0 (- 149))"
  unfolding twelve_zeros
  by (simp add: unpack_fff_def f32_of_def le_nat_def vec_of_def float_of_f32_def)

text \<open>
  C5. An input of twelve floats (48 to 51 bytes) gives four vertices \<open>v0, v1, v2, v3\<close>; the
  fan is the two triangles \<open>(0, 1, 2)\<close> and \<open>(0, 2, 3)\<close>, and the file written is the
  80-byte header, the count 2 in four bytes, and their two records of 50 bytes, 184 bytes
  in all. A record is twelve zero bytes, the 36 bytes of its three vertices and two zero
  bytes. For every input with at least three vertices each record of the file starts with
  twelve zero bytes, and so does whatever the loop body writes for any face and any vertex
  array: the normal is written before the vertices are looked up and is not computed.
  Twelve zero bytes are the three floats \<open>+0.0\<close>.
\<close>

theorem fallback_four_vertices:
  assumes "fs input_file = Some data"
  shows "(length data div 4 = 12 \<longrightarrow>
      (\<exists>v0 v1 v2 v3. derive_vertices data = Inr [v0, v1, v2, v3]
         \<and> take 98 (fan_faces (length [v0, v1, v2, v3])) = [(0, 1, 2), (0, 2, 3)]
         \<and> fallback_record [v0, v1, v2, v3] (0, 1, 2) =
             (replicate 12 0 @ pack_fff v0 @ pack_fff v1 @ pack_fff v2 @ [0, 0], None)
         \<and> fallback_record [v0, v1, v2, v3] (0, 2, 3) =
             (replicate 12 0 @ pack_fff v0 @ pack_fff v2 @ pack_fff v3 @ [0, 0], None)
         \<and> simple_extraction fs input_file output_file =
           (fs(output_file \<mapsto> fallback_header @ [2, 0, 0, 0] @
                 (replicate 12 0 @ pack_fff v0 @ pack_fff v1 @ pack_fff v2 @ [0, 0]) @
                 (replicate 12 0 @ pack_fff v0 @ pack_fff v2 @ pack_fff v3 @ [0, 0])),
            None)
         \<and> length (fallback_header @ [2, 0, 0, 0] @
                 (replicate 12 0 @ pack_fff v0 @ pack_fff v1 @ pack_fff v2 @ [0, 0]) @
                 (replicate 12 0 @ pack_fff v0 @ pack_fff v2 @ pack_fff v3 @ [0, 0])) = 184))
    \<and> (\<exists>all. derive_vertices data = Inr all \<and>
          (3 \<le> length all \<longrightarrow>
             simple_extraction fs input_file output_file =
               (fs(output_file \<mapsto> fallback_header @ le_bytes4 (min 98 (length all - 2)) @
                     concat (map (\<lambda>k. replicate 12 0 @ pack_fff (take 100 all ! 0) @
                                     pack_fff (take 100 all ! Suc k) @
                                     pack_fff (take 100 all ! Suc (Suc k)) @ [0, 0])
                              [0 ..< min 98 (length all - 2)])),
                None)))
    \<and> take 12 (fst (fallback_record vertices f)) = replicate 12 0
    \<and> unpack_fff (replicate 12 0) = Inr (0, 0, 0)
    \<and> vec_of (0, 0, 0) = (Finite False 0 (- 149), Finite False 0 (- 149), Finite False 0 (- 149))
    \<and> length fallback_header = 80
    \<and> length (pack_fff v) = 12"
proof -
  have four: "\<exists>v0 v1 v2 v3. derive_vertices data = Inr [v0, v1, v2, v3]
         \<and> take 98 (fan_faces (length [v0, v1, v2, v3])) = [(0, 1, 2), (0, 2, 3)]
         \<and> fallback_record [v0, v1, v2, v3] (0, 1, 2) =
             (replicate 12 0 @ pack_fff v0 @ pack_fff v1 @ pack_fff v2 @ [0, 0], None)
         \<and> fallback_record [v0, v1, v2, v3] (0, 2, 3) =
             (replicate 12 0 @ pack_fff v0 @ pack_fff v2 @ pack_fff v3 @ [0, 0], None)
         \<and> simple_extraction fs input_file output_file =
           (fs(output_file \<mapsto> fallback_header @ [2, 0, 0, 0] @
                 (replicate 12 0 @ pack_fff v0 @ pack_fff v1 @ pack_fff v2 @ [0, 0]) @
                 (replicate 12 0 @ pack_fff v0 @ pack_fff v2 @ pack_fff v3 @ [0, 0])),
            None)
         \<and> length (fallback_header @ [2, 0, 0, 0] @
                 (replicate 12 0 @ pack_fff v0 @ pack_fff v1 @ pack_fff v2 @ [0, 0]) @
                 (replicate 12 0 @ pack_fff v0 @ pack_fff v2 @ pack_fff v3 @ [0, 0])) = 184"
    if twelve: "length data div 4 = 12"
  proof -
    have "length data div 12 = 4"
      using twelve div_mult2_eq [of "length data" 4 3] by simp
    with derive_vertices_ok [of data] obtain all
      where all: "derive_vertices data = Inr all" "length all = 4" by auto
    then obtain v0 v1 v2 v3 where vs: "all = [v0, v1, v2, v3]"
      by (auto simp: length_Suc_conv numeral_eq_Suc)
    have "3 \<le> length all" using all(2) by simp
    from fallback_file [of fs input_file data all output_file, OF assms all(1) this]
    have written: "simple_extraction fs input_file output_file =
           (fs(output_file \<mapsto> fallback_header @ [2, 0, 0, 0] @
                 (replicate 12 0 @ pack_fff v0 @ pack_fff v1 @ pack_fff v2 @ [0, 0]) @
                 (replicate 12 0 @ pack_fff v0 @ pack_fff v2 @ pack_fff v3 @ [0, 0])),
            None)"
      unfolding vs
      by (simp add: two_upt pack_fff_zero_def pack_H_zero_def le_bytes4_def)
    have "length [v0, v1, v2, v3] = 4" by simp
    then have fan: "take 98 (fan_faces (length [v0, v1, v2, v3])) = [(0, 1, 2), (0, 2, 3)]"
      by (simp only: fan_of_four)
    have r1: "fallback_record [v0, v1, v2, v3] (0, 1, 2) =
             (replicate 12 0 @ pack_fff v0 @ pack_fff v1 @ pack_fff v2 @ [0, 0], None)"
      by (simp add: fallback_record_ok pack_fff_zero_def pack_H_zero_def)
    have r2: "fallback_record [v0, v1, v2, v3] (0, 2, 3) =
             (replicate 12 0 @ pack_fff v0 @ pack_fff v2 @ pack_fff v3 @ [0, 0], None)"
      by (simp add: fallback_record_ok pack_fff_zero_def pack_H_zero_def)
    have len: "length (fallback_header @ [2, 0, 0, 0] @
                 (replicate 12 0 @ pack_fff v0 @ pack_fff v1 @ pack_fff v2 @ [0, 0]) @
                 (replicate 12 0 @ pack_fff v0 @ pack_fff v2 @ pack_fff v3 @ [0, 0])) = 184"
      by (simp add: fallback_header_length length_pack_fff)
    from all(1) vs fan r1 r2 written len show ?thesis by blast
  qed
  have general: "\<exists>all. derive_vertices data = Inr all \<and>
          (3 \<le> length all \<longrightarrow>
             simple_extraction fs input_file output_file =
               (fs(output_file \<mapsto> fallback_header @ le_bytes4 (min 98 (length all - 2)) @
                     concat (map (\<lambda>k. replicate 12 0 @ pack_fff (take 100 all ! 0) @
                                     pack_fff (take 100 all ! Suc k) @
                                     pack_fff (take 100 all ! Suc (Suc k)) @ [0, 0])
                              [0 ..< min 98 (length all - 2)])),
                None))"
  proof -
    from derive_vertices_ok [of data] obtain all where all: "derive_vertices data = Inr all"
      by auto
    with fallback_file [of fs input_file data all output_file, OF assms]
    show ?thesis
      unfolding pack_fff_zero_def pack_H_zero_def by blast
  qed
  from four general fallback_record_normal [of vertices f] zero_normal_value
    fallback_header_length length_pack_fff [of v]
  show ?thesis by blast
qed

theorem fallback_four_vertices_witness:
  "[''scrap.bin'' \<mapsto> square_bytes] ''scrap.bin'' = Some square_bytes
    \<and> length square_bytes div 4 = 12
    \<and> simple_extraction [''scrap.bin'' \<mapsto> square_bytes] ''scrap.bin'' ''out.stl'' =
        ([''scrap.bin'' \<mapsto> square_bytes,
          ''out.stl'' \<mapsto> bytes_of ''Simple extraction'' @ replicate 63 0 @ [2, 0, 0, 0] @
            [0, 0, 0, 0,  0, 0, 0, 0,  0, 0, 0, 0,
             0, 0, 0, 0,  0, 0, 0, 0,  0, 0, 0, 0,
             0, 0, 0x80, 0x3F,  0, 0, 0, 0,  0, 0, 0, 0,
             0, 0, 0x80, 0x3F,  0, 0, 0x80, 0x3F,  0, 0, 0, 0,
             0, 0] @
            [0, 0, 0, 0,  0, 0, 0, 0,  0, 0, 0, 0,
             0, 0, 0, 0,  0, 0, 0, 0,  0, 0, 0, 0,
             0, 0, 0x80, 0x3F,  0, 0, 0x80, 0x3F,  0, 0, 0, 0,
             0, 0, 0, 0,  0, 0, 0x80, 0x3F,  0, 0, 0, 0,
             0, 0]],
         None)"
proof -
  have a: "[''scrap.bin'' \<mapsto> square_bytes] ''scrap.bin'' = Some square_bytes"
    by simp
  have b: "length square_bytes div 4 = 12"
    by (simp add: square_length)
  from fallback_four_vertices [of "[''scrap.bin'' \<mapsto> square_bytes]" "''scrap.bin''"
      square_bytes "''out.stl''", OF a, THEN conjunct1, THEN mp, OF b]
  obtain v0 v1 v2 v3 where
    v: "derive_vertices square_bytes = Inr [v0, v1, v2, v3]"
    and w: "simple_extraction [''scrap.bin'' \<mapsto> square_bytes] ''scrap.bin'' ''out.stl'' =
           ([''scrap.bin'' \<mapsto> square_bytes, ''out.stl'' \<mapsto> fallback_header @ [2, 0, 0, 0] @
                 (replicate 12 0 @ pack_fff v0 @ pack_fff v1 @ pack_fff v2 @ [0, 0]) @
                 (replicate 12 0 @ pack_fff v0 @ pack_fff v2 @ pack_fff v3 @ [0, 0])],
            None)"
    by blast
  from v have vs: "v0 = (0, 0, 0)" "v1 = (0x3F800000, 0, 0)" "v2 = (0x3F800000, 0x3F800000, 0)"
      "v3 = (0, 0x3F800000, 0)"
    by (simp_all add: square_vertices)
  have p: "pack_f 0 = [0, 0, 0, 0]" "pack_f 0x3F800000 = [0, 0, 0x80, 0x3F]"
    by (simp_all add: pack_f_def quiet_nan_def le_bytes4_def)
  have bytes: "fallback_header @ [2, 0, 0, 0] @
        (replicate 12 0 @ pack_fff (0, 0, 0) @ pack_fff (0x3F800000, 0, 0)
           @ pack_fff (0x3F800000, 0x3F800000, 0) @ [0, 0]) @
        (replicate 12 0 @ pack_fff (0, 0, 0) @ pack_fff (0x3F800000, 0x3F800000, 0)
           @ pack_fff (0, 0x3F800000, 0) @ [0, 0])
      = bytes_of ''Simple extraction'' @ replicate 63 0 @ [2, 0, 0, 0] @
            [0, 0, 0, 0,  0, 0, 0, 0,  0, 0, 0, 0,
             0, 0, 0, 0,  0, 0, 0, 0,  0, 0, 0, 0,
             0, 0, 0x80, 0x3F,  0, 0, 0, 0,  0, 0, 0, 0,
             0, 0, 0x80, 0x3F,  0, 0, 0x80, 0x3F,  0, 0, 0, 0,
             0, 0] @
            [0, 0, 0, 0,  0, 0, 0, 0,  0, 0, 0, 0,
             0, 0, 0, 0,  0, 0, 0, 0,  0, 0, 0, 0,
             0, 0, 0x80, 0x3F,  0, 0, 0x80, 0x3F,  0, 0, 0, 0,
             0, 0, 0, 0,  0, 0, 0x80, 0x3F,  0, 0, 0, 0,
             0, 0]"
    unfolding twelve_zeros fallback_header_def pack_fff_def by (simp add: p)
  from w have "simple_extraction [''scrap.bin'' \<mapsto> square_bytes] ''scrap.bin'' ''out.stl'' =
        ([''scrap.bin'' \<mapsto> square_bytes,
          ''out.stl'' \<mapsto> bytes_of ''Simple extraction'' @ replicate 63 0 @ [2, 0, 0, 0] @
            [0, 0, 0, 0,  0, 0, 0, 0,  0, 0, 0, 0,
             0, 0, 0, 0,  0, 0, 0, 0,  0, 0, 0, 0,
             0, 0, 0x80, 0x3F,  0, 0, 0, 0,  0, 0, 0, 0,
             0, 0, 0x80, 0x3F,  0, 0, 0x80, 0x3F,  0, 0, 0, 0,
             0, 0] @
            [0, 0, 0, 0,  0, 0, 0, 0,  0, 0, 0, 0,
             0, 0, 0, 0,  0, 0, 0, 0,  0, 0, 0, 0,
             0, 0, 0x80, 0x3F,  0, 0, 0x80, 0x3F,  0, 0, 0, 0,
             0, 0, 0, 0,  0, 0, 0x80, 0x3F,  0, 0, 0, 0,
             0, 0]],
         None)"
    unfolding vs bytes .
  with a b show ?thesis by (intro conjI)
qed

text \<open>
  C8. The extractor derives \<open>length data div 12\<close> vertices. When that is fewer than three it
  returns normally and the file system is unchanged: no output file is created or touched.
\<close>

theorem fallback_too_few_vertices:
  assumes "fs input_file = Some data" and "length data div 12 < 3"
  shows "(\<exists>vs. derive_vertices data = Inr vs \<and> length vs < 3)
    \<and> simple_extraction fs input_file output_file = (fs, None)"
proof -
  from derive_vertices_ok [of data] assms(2) obtain vs
    where vs: "derive_vertices data = Inr vs" "length vs < 3" by auto
  with assms(1) have "simple_extraction fs input_file output_file = (fs, None)"
    by (simp add: simple_extraction_def)
  with vs show ?thesis by blast
qed

theorem fallback_too_few_vertices_witness:
  "[''scrap.bin'' \<mapsto> take 35 square_bytes] ''scrap.bin'' = Some (take 35 square_bytes)
    \<and> length (take 35 square_bytes) div 12 < 3
    \<and> simple_extraction [''scrap.bin'' \<mapsto> take 35 square_bytes] ''scrap.bin'' ''out.stl''
        = ([''scrap.bin'' \<mapsto> take 35 square_bytes], None)"
  using fallback_too_few_vertices [of "[''scrap.bin'' \<mapsto> take 35 square_bytes]" "''scrap.bin''"
      "take 35 square_bytes" "''out.stl''"]
  by (simp add: square_length)

text \<open>
  C10. With at least three vertices, every face of the clamped fan is \<open>(0, i, i + 1)\<close> with
  \<open>i + 1\<close> below the number of clamped vertices, the loop body raises nothing for it, and
  the extractor returns normally: no lookup of the write loop is out of bounds.
\<close>

theorem fallback_lookups_in_bounds:
  assumes "fs input_file = Some data"
  shows "\<exists>all. derive_vertices data = Inr all \<and> length all = length data div 12 \<and>
    (3 \<le> length all \<longrightarrow>
       (\<forall>f \<in> set (take 98 (fan_faces (length all))).
          \<exists>i. f = (0, i, i + 1) \<and> 0 < i \<and> i + 1 < length (take 100 all)
            \<and> snd (fallback_record (take 100 all) f) = None)
       \<and> snd (simple_extraction fs input_file output_file) = None)"
proof -
  from derive_vertices_ok [of data] obtain all
    where all: "derive_vertices data = Inr all" "length all = length data div 12" by auto
  have "\<exists>i. f = (0, i, i + 1) \<and> 0 < i \<and> i + 1 < length (take 100 all)
      \<and> snd (fallback_record (take 100 all) f) = None"
    if "3 \<le> length all" and "f \<in> set (take 98 (fan_faces (length all)))" for f
  proof -
    from that(2) obtain k where k: "f = (0, Suc k, Suc (Suc k))" "k < 98" "k < length all - 2"
      unfolding take_fan_faces by auto
    then have b: "0 < length (take 100 all)" "Suc k < length (take 100 all)"
        "Suc (Suc k) < length (take 100 all)"
      using that(1) by auto
    then have "snd (fallback_record (take 100 all) f) = None"
      unfolding k(1) by (simp add: fallback_record_ok)
    with k(1) b show ?thesis by simp
  qed
  moreover have "snd (simple_extraction fs input_file output_file) = None" if "3 \<le> length all"
    using fallback_file [of fs input_file data all output_file, OF assms all(1) that] by simp
  ultimately show ?thesis using all by blast
qed

theorem fallback_lookups_in_bounds_witness:
  "[''scrap.bin'' \<mapsto> square_bytes] ''scrap.bin'' = Some square_bytes
    \<and> derive_vertices square_bytes =
        Inr [(0, 0, 0), (0x3F800000, 0, 0), (0x3F800000, 0x3F800000, 0), (0, 0x3F800000, 0)]
    \<and> snd (simple_extraction [''scrap.bin'' \<mapsto> square_bytes] ''scrap.bin'' ''out.stl'') = None"
  using fallback_lookups_in_bounds [of "[''scrap.bin'' \<mapsto> square_bytes]" "''scrap.bin''"
      square_bytes "''out.stl''"]
  by (auto simp: square_vertices)

section \<open>Failures of the primary path\<close>

lemma short_slice: "int (length bs) < off + 12 \<Longrightarrow> length (py_slice bs off (off + 12)) < 12"
  by (auto simp: py_slice_def slice_bound_def Let_def min_def max_def split: if_splits)

lemma unpack_fff_short: "length bs < 12 \<Longrightarrow> unpack_fff bs = Inl StructError"
  by (simp add: unpack_fff_def)

lemma unpack_fff_cases: "unpack_fff bs = Inl StructError \<or> (\<exists>v. unpack_fff bs = Inr v)"
  by (simp add: unpack_fff_def)

lemma read_vertices_overrun:
  "py_int_of pos_offset = Some off \<Longrightarrow> i \<in> set is \<Longrightarrow>
   int (length bin_data) < off + i * 12 + 12 \<Longrightarrow>
   read_vertices bin_data pos_offset is = Inl StructError"
proof (induction "is")
  case Nil
  then show ?case by simp
next
  case (Cons j rest)
  have off: "offset_at pos_offset (j * 12) = Inr (off + j * 12)"
    using Cons.prems(1) by (simp add: offset_at_def)
  show ?case
  proof (cases "unpack_fff (py_slice bin_data (off + j * 12) (off + j * 12 + 12))")
    case (Inl e)
    with unpack_fff_cases [of "py_slice bin_data (off + j * 12) (off + j * 12 + 12)"]
    have "e = StructError" by auto
    with Inl off show ?thesis by simp
  next
    case (Inr v)
    have "i \<noteq> j"
    proof
      assume "i = j"
      with Cons.prems(3) have "length (py_slice bin_data (off + j * 12) (off + j * 12 + 12)) < 12"
        by (intro short_slice) simp
      with Inr show False by (simp add: unpack_fff_short)
    qed
    with Cons have "read_vertices bin_data pos_offset rest = Inl StructError" by simp
    with Inr off show ?thesis by simp
  qed
qed

lemma subscript_str_key:
  "subscript obj (JStr k) = Inr v \<Longrightarrow> \<exists>kvs. obj = JObj kvs \<and> map_of kvs k = Some v"
  by (cases obj) (auto split: option.splits)

lemma subscript_int_key:
  "subscript obj (JInt i) = Inr v \<Longrightarrow> (\<exists>xs. obj = JArr xs) \<or> (\<exists>s. obj = JStr s)"
  by (cases obj) auto

lemma meshes_len_ok:
  assumes "find_mesh_data scene = Inr x"
  shows "\<exists>n. and_then (dict_get scene ''meshes'' (JArr [])) py_len = Inr n"
proof -
  from assms obtain meshes m0 where
    m: "subscript scene (JStr ''meshes'') = Inr meshes" "subscript meshes (JInt 0) = Inr m0"
    by (auto simp: find_mesh_data_def and_then_Inr)
  from subscript_str_key [OF m(1)] obtain kvs where
    "scene = JObj kvs" "map_of kvs ''meshes'' = Some meshes" by auto
  moreover from subscript_int_key [OF m(2)] have "\<exists>n. py_len meshes = Inr n" by auto
  ultimately show ?thesis by auto
qed

lemma main_fallback:
  "3 \<le> length argv \<Longrightarrow>
   primary N json_loads fs (argv ! 1) (argv ! 2) (3 < length argv \<and> argv ! 3 = ''--ascii'')
     = (fs', Some e) \<Longrightarrow>
   main N json_loads fs argv =
     (case simple_extraction fs' (argv ! 1) (argv ! 2) of (fs'', r) \<Rightarrow> (fs'', Fallback e r))"
  by (simp add: main_def Let_def)

text \<open>
  C4. When the scene resolves, the position offset and count are integers, and for some
  \<open>i\<close> below the count the twelve bytes at \<open>off + 12 * i\<close> end after the payload, the loop
  over the vertices raises \<^verbatim>\<open>struct.error\<close> (the slice is shorter than twelve bytes), so
  does \<open>extract_mesh_from_glb\<close>, and \<open>main\<close> runs \<open>simple_extraction\<close> on the same input
  and output paths, with the file system as it was.
\<close>

theorem position_overrun_falls_back:
  assumes "3 \<le> length argv"
      and "parse_glb json_loads fs (argv ! 1) = Inr (scene, bin_data)"
      and "find_mesh_data scene = Inr (pa, ia, pv, iv)"
      and "dict_get pv ''byteOffset'' (JInt 0) = Inr pos_offset"
      and "py_int_of pos_offset = Some off"
      and "subscript pa (JStr ''count'') = Inr pos_count"
      and "py_int_of pos_count = Some n"
      and "0 \<le> i" and "i < n" and "int (length bin_data) < off + i * 12 + 12"
  shows "read_vertices bin_data pos_offset (py_range 0 n 1) = Inl StructError
    \<and> extract_mesh_from_glb scene bin_data = Inl StructError
    \<and> main N json_loads fs argv =
        (case simple_extraction fs (argv ! 1) (argv ! 2) of
           (fs', r) \<Rightarrow> (fs', Fallback StructError r))"
proof -
  have mem: "i \<in> set (py_range 0 n 1)"
    unfolding py_range_from_0 using assms(8,9) by (auto simp: image_iff intro!: bexI [of _ "nat i"])
  have rv: "read_vertices bin_data pos_offset (py_range 0 n 1) = Inl StructError"
    using assms(5) mem assms(10) by (rule read_vertices_overrun)
  with assms(3,4,6,7) have ex: "extract_mesh_from_glb scene bin_data = Inl StructError"
    by (simp add: extract_mesh_from_glb_def range_of_def)
  from meshes_len_ok [OF assms(3)] obtain k where
    "and_then (dict_get scene ''meshes'' (JArr [])) py_len = Inr k" by auto
  with assms(2) ex
  have "primary N json_loads fs (argv ! 1) (argv ! 2) (3 < length argv \<and> argv ! 3 = ''--ascii'')
      = (fs, Some StructError)"
    by (simp add: primary_def)
  with assms(1) rv ex show ?thesis
    by (simp add: main_fallback)
qed


lemma four_bytes_sum:
  fixes n :: nat
  shows "n mod 256 + (256 * (n div 256 mod 256) +
     (65536 * (n div 65536 mod 256) + 16777216 * (n div 16777216))) = n"
proof -
  have a: "n = n mod 256 + 256 * (n div 256)" by simp
  have "n div 65536 = n div 256 div 256" "n div 16777216 = n div 65536 div 256"
    by (simp_all add: div_mult2_eq [symmetric])
  then have b: "n div 256 = n div 256 mod 256 + 256 * (n div 65536)"
    and c: "n div 65536 = n div 65536 mod 256 + 256 * (n div 16777216)"
    by simp_all
  from a b c show ?thesis by linarith
qed

lemma le_nat_le_bytes4: "n < 2 ^ 32 \<Longrightarrow> le_nat (le_bytes4 n) = n"
  by (simp add: le_nat_def le_bytes4_def unat_of_nat four_bytes_sum)

lemma fread_at:
  "length pre = pos \<Longrightarrow> length chunk = n \<Longrightarrow> fread (pre @ chunk @ rest) pos n = (chunk, pos + n)"
  by (simp add: fread_def)

lemma length_le_bytes4: "length (le_bytes4 k) = 4"
  by (simp add: le_bytes4_def)

lemma parse_container:
  assumes "length json_data < 2 ^ 32" and "length payload < 2 ^ 32"
  shows "parse_glb json_loads [name \<mapsto> glb_container version total_length json_data payload] name
    = and_then (json_loads json_data) (\<lambda>scene. Inr (scene, payload))"
proof -
  let ?m = "bytes_of ''glTF''" and ?v = "le_bytes4 version" and ?t = "le_bytes4 total_length"
  let ?jl = "le_bytes4 (length json_data)" and ?jt = "bytes_of ''JSON''"
  let ?bl = "le_bytes4 (length payload)" and ?bt = "bytes_of ''BIN'' @ [0]"
  let ?data = "glb_container version total_length json_data payload"
  let ?j = "length json_data"
  have n: "le_nat ?jl = length json_data" "le_nat ?bl = length payload"
    using assms by (simp_all add: le_nat_le_bytes4)
  have r1: "fread ?data 0 4 = (?m, 4)"
    using fread_at [of "[]" 0 ?m 4] by (simp add: glb_container_def bytes_of_def)
  have r2: "fread ?data 4 4 = (?v, 8)"
    using fread_at [of ?m 4 ?v 4] by (simp add: glb_container_def bytes_of_def length_le_bytes4)
  have r3: "fread ?data 8 4 = (?t, 12)"
    using fread_at [of "?m @ ?v" 8 ?t 4]
    by (simp add: glb_container_def bytes_of_def length_le_bytes4)
  have r4: "fread ?data 12 4 = (?jl, 16)"
    using fread_at [of "?m @ ?v @ ?t" 12 ?jl 4]
    by (simp add: glb_container_def bytes_of_def length_le_bytes4)
  have r5: "fread ?data 16 4 = (?jt, 20)"
    using fread_at [of "?m @ ?v @ ?t @ ?jl" 16 ?jt 4]
    by (simp add: glb_container_def bytes_of_def length_le_bytes4)
  have r6: "fread ?data 20 ?j = (json_data, 20 + ?j)"
    using fread_at [of "?m @ ?v @ ?t @ ?jl @ ?jt" 20 json_data ?j]
    by (simp add: glb_container_def bytes_of_def length_le_bytes4)
  have r7: "fread ?data (20 + ?j) 4 = (?bl, 24 + ?j)"
    using fread_at [of "?m @ ?v @ ?t @ ?jl @ ?jt @ json_data" "20 + ?j" ?bl 4]
    by (simp add: glb_container_def bytes_of_def length_le_bytes4)
  have r8: "fread ?data (24 + ?j) 4 = (?bt, 28 + ?j)"
    using fread_at [of "?m @ ?v @ ?t @ ?jl @ ?jt @ json_data @ ?bl" "24 + ?j" ?bt 4]
    by (simp add: glb_container_def bytes_of_def length_le_bytes4)
  have r9: "fread ?data (28 + ?j) (length payload)
      = (payload, 28 + ?j + length payload)"
    using fread_at [of "?m @ ?v @ ?t @ ?jl @ ?jt @ json_data @ ?bl @ ?bt" "28 + ?j"
        payload "length payload" "[]"]
    by (simp add: glb_container_def bytes_of_def length_le_bytes4)
  have s: "parse_stream json_loads ?data =
      (case json_loads json_data of
         Inl e \<Rightarrow> (Inl e, 20 + ?j)
       | Inr scene \<Rightarrow> (Inr (scene, payload), 28 + ?j + length payload))"
    by (simp add: parse_stream_def read_json_chunk_def read_bin_chunk_def read_I_def
        unpack_I_def length_le_bytes4 n r1 r2 r3 r4 r5 r6 r7 r8 r9 split: sum.splits)
  show ?thesis
    by (cases "json_loads json_data") (simp_all add: parse_glb_def s)
qed

lemma parse_glb_file:
  assumes "length payload < 2 ^ 32"
  shows "parse_glb (\<lambda>bs. Inr sc) [name \<mapsto> glb_file payload] name = Inr (sc, payload)"
  unfolding glb_file_def using assms
  by (subst parse_container) (simp_all add: bytes_of_def)

text \<open>
  The chunk framing round trip: from a container built of a header, a JSON chunk and a BIN
  chunk, \<open>parse_glb\<close> returns what \<^verbatim>\<open>json.loads\<close> makes of the bytes of the JSON chunk, and
  the bytes of the BIN chunk as they are. The version and the total length are read and
  not used.
\<close>

theorem container_round_trip:
  assumes "length json_data < 2 ^ 32" and "length payload < 2 ^ 32"
      and "json_loads json_data = Inr scene"
  shows "parse_glb json_loads [name \<mapsto> glb_container version total_length json_data payload] name
    = Inr (scene, payload)"
  using assms by (simp add: parse_container)

theorem container_round_trip_witness:
  "length (bytes_of ''{}  '') < (2 :: nat) ^ 32
   \<and> length (take 12 example_payload) < (2 :: nat) ^ 32
   \<and> parse_glb (\<lambda>bs. Inr JNull)
         [''model.glb'' \<mapsto> glb_container 2 44 (bytes_of ''{}  '') (take 12 example_payload)]
         ''model.glb''
       = Inr (JNull, take 12 example_payload)"
  using container_round_trip [of "bytes_of ''{}  ''" "take 12 example_payload" "\<lambda>bs. Inr JNull"
      JNull "''model.glb''" 2 44]
  by (simp add: bytes_of_def example_payload_def)

lemma short_payload_length: "length (take 12 example_payload) = 12"
  by (simp add: example_payload_def)

theorem position_overrun_falls_back_witness:
  "parse_glb (\<lambda>bs. Inr (example_scene 2 3))
       [''model.glb'' \<mapsto> glb_file (take 12 example_payload)] ''model.glb''
     = Inr (example_scene 2 3, take 12 example_payload)
   \<and> subscript (accessor 0 2) (JStr ''count'') = Inr (JInt 2)
   \<and> int (length (take 12 example_payload)) < 0 + 1 * 12 + 12
   \<and> extract_mesh_from_glb (example_scene 2 3) (take 12 example_payload) = Inl StructError
   \<and> main example_numerics (\<lambda>bs. Inr (example_scene 2 3))
        [''model.glb'' \<mapsto> glb_file (take 12 example_payload)]
        [''glb2stl.py'', ''model.glb'', ''out.stl'']
      = (case simple_extraction [''model.glb'' \<mapsto> glb_file (take 12 example_payload)]
               ''model.glb'' ''out.stl'' of
           (fs', r) \<Rightarrow> (fs', Fallback StructError r))"
proof -
  have p: "parse_glb (\<lambda>bs. Inr (example_scene 2 3))
       [''model.glb'' \<mapsto> glb_file (take 12 example_payload)] ''model.glb''
     = Inr (example_scene 2 3, take 12 example_payload)"
    by (rule parse_glb_file) (simp add: short_payload_length)
  have p': "parse_glb (\<lambda>bs. Inr (example_scene 2 3))
       [''model.glb'' \<mapsto> glb_file (take 12 example_payload)]
       ([''glb2stl.py'', ''model.glb'', ''out.stl''] ! 1)
     = Inr (example_scene 2 3, take 12 example_payload)"
    using p by simp
  have c: "subscript (accessor 0 2) (JStr ''count'') = Inr (JInt 2)"
    by (simp add: accessor_def)
  have l: "int (length (take 12 example_payload)) < 0 + 1 * 12 + 12"
    by (simp add: short_payload_length)
  from position_overrun_falls_back [where N = example_numerics
      and argv = "[''glb2stl.py'', ''model.glb'', ''out.stl'']"
      and pos_offset = "JInt 0" and off = 0 and pos_count = "JInt 2" and n = 2 and i = 1,
      OF _ p' example_find _ _ c _ _ _ l]
  have "extract_mesh_from_glb (example_scene 2 3) (take 12 example_payload) = Inl StructError
    \<and> main example_numerics (\<lambda>bs. Inr (example_scene 2 3))
        [''model.glb'' \<mapsto> glb_file (take 12 example_payload)]
        [''glb2stl.py'', ''model.glb'', ''out.stl'']
      = (case simple_extraction [''model.glb'' \<mapsto> glb_file (take 12 example_payload)]
               ''model.glb'' ''out.stl'' of
           (fs', r) \<Rightarrow> (fs', Fallback StructError r))"
    by simp
  with p c l show ?thesis by blast
qed

lemma face_vertices_bad:
  "length vs \<le> a \<or> length vs \<le> b \<or> length vs \<le> c \<Longrightarrow>
   face_vertices vs (a, b, c) = Inl IndexError"
  by (auto simp: face_vertices_def np_index_def)

lemma write_binary_fails:
  assumes "(a, b, c) \<in> set faces"
      and "length vs \<le> a \<or> length vs \<le> b \<or> length vs \<le> c"
  shows "\<exists>fs' e. write_stl_binary N vs faces fs filename = (fs', Some e)"
proof (cases "pack_I (length faces)")
  case (Inl e)
  then show ?thesis by (simp add: write_stl_binary_def)
next
  case (Inr count)
  have "snd (binary_record N vs (a, b, c)) = Some IndexError"
    using assms(2) by (simp add: binary_record_def face_vertices_bad)
  from for_each_fails [of "(a, b, c)" faces "binary_record N vs" IndexError, OF assms(1) this]
  obtain e where "snd (for_each (binary_record N vs) faces) = Some e" by auto
  with Inr show ?thesis
    by (cases "for_each (binary_record N vs) faces") (simp add: write_stl_binary_def)
qed

lemma write_ascii_fails:
  assumes "(a, b, c) \<in> set faces"
      and "length vs \<le> a \<or> length vs \<le> b \<or> length vs \<le> c"
  shows "\<exists>fs' e. write_stl_ascii N vs faces fs filename = (fs', Some e)"
proof -
  have "snd (ascii_facet N vs (a, b, c)) = Some IndexError"
    using assms(2) by (simp add: ascii_facet_def face_vertices_bad)
  from for_each_fails [of "(a, b, c)" faces "ascii_facet N vs" IndexError, OF assms(1) this]
  obtain e where "snd (for_each (ascii_facet N vs) faces) = Some e" by auto
  then show ?thesis
    by (cases "for_each (ascii_facet N vs) faces") (simp add: write_stl_ascii_def)
qed

lemma primary_bad_index:
  assumes "parse_glb json_loads fs input_file = Inr (scene, bin_data)"
      and "extract_mesh_from_glb scene bin_data = Inr (vertices, faces)"
      and "(a, b, c) \<in> set faces"
      and "length vertices \<le> a \<or> length vertices \<le> b \<or> length vertices \<le> c"
  shows "\<exists>fs' e. primary N json_loads fs input_file output_file use_ascii = (fs', Some e)"
proof -
  from assms(2) obtain x where "find_mesh_data scene = Inr x"
    by (auto simp: extract_mesh_from_glb_def and_then_Inr)
  from meshes_len_ok [OF this] obtain k where
    k: "and_then (dict_get scene ''meshes'' (JArr [])) py_len = Inr k" by auto
  show ?thesis
  proof (cases "vertices = []")
    case True
    with assms(1,2) k show ?thesis by (simp add: primary_def)
  next
    case False
    with assms(1,2) k
    have "primary N json_loads fs input_file output_file use_ascii
        = (if use_ascii then write_stl_ascii N vertices faces fs output_file
           else write_stl_binary N vertices faces fs output_file)"
      by (simp add: primary_def)
    with write_ascii_fails [OF assms(3,4), of N fs output_file]
      write_binary_fails [OF assms(3,4), of N fs output_file]
    show ?thesis by (cases use_ascii) simp_all
  qed
qed

lemma for_each_stops:
  "for_each body xs = (out, None) \<Longrightarrow> body y = (out', Some e) \<Longrightarrow>
   for_each body (xs @ y # ys) = (out @ out', Some e)"
  by (induction xs arbitrary: out) (auto split: prod.splits option.splits)

lemma for_each_stops_at:
  assumes "k < length xs" and "for_each body (take k xs) = (out, None)"
      and "body (xs ! k) = ([], Some e)"
  shows "for_each body xs = (out, Some e)"
proof -
  have "xs = take k xs @ xs ! k # drop (Suc k) xs"
    using assms(1) by (rule id_take_nth_drop)
  then have "for_each body xs = for_each body (take k xs @ xs ! k # drop (Suc k) xs)"
    by simp
  also have "\<dots> = (out @ [], Some e)"
    using assms(2,3) by (rule for_each_stops)
  finally show ?thesis by simp
qed

lemma write_binary_stops:
  assumes "k < length faces" and "faces ! k = (a, b, c)"
      and "length vs \<le> a \<or> length vs \<le> b \<or> length vs \<le> c"
      and "length faces < 2 ^ 32"
      and "for_each (binary_record N vs) (take k faces) = (written, None)"
  shows "write_stl_binary N vs faces fs filename =
    (fs(filename \<mapsto> binary_header @ le_bytes4 (length faces) @ written), Some IndexError)"
proof -
  have "binary_record N vs (faces ! k) = ([], Some IndexError)"
    using assms(2,3) by (simp add: binary_record_def face_vertices_bad)
  with assms(1,5) have "for_each (binary_record N vs) faces = (written, Some IndexError)"
    by (intro for_each_stops_at)
  with assms(4) show ?thesis
    by (simp add: write_stl_binary_def pack_I_def)
qed

lemma write_ascii_stops:
  assumes "k < length faces" and "faces ! k = (a, b, c)"
      and "length vs \<le> a \<or> length vs \<le> b \<or> length vs \<le> c"
      and "for_each (ascii_facet N vs) (take k faces) = (facets, None)"
  shows "write_stl_ascii N vs faces fs filename =
    (fs(filename \<mapsto> bytes_of (''solid glTF_converted'' @ newline @ facets)), Some IndexError)"
proof -
  have "ascii_facet N vs (faces ! k) = ([], Some IndexError)"
    using assms(2,3) by (simp add: ascii_facet_def face_vertices_bad)
  with assms(1,4) have "for_each (ascii_facet N vs) faces = (facets, Some IndexError)"
    by (intro for_each_stops_at)
  then show ?thesis
    by (simp add: write_stl_ascii_def)
qed

lemma primary_writes:
  assumes "parse_glb json_loads fs input_file = Inr (scene, bin_data)"
      and "extract_mesh_from_glb scene bin_data = Inr (vertices, faces)"
  shows "primary N json_loads fs input_file output_file use_ascii =
     (if vertices = [] then (fs, Some IndexError)
      else if use_ascii then write_stl_ascii N vertices faces fs output_file
      else write_stl_binary N vertices faces fs output_file)"
proof -
  from assms(2) obtain x where "find_mesh_data scene = Inr x"
    by (auto simp: extract_mesh_from_glb_def and_then_Inr)
  from meshes_len_ok [OF this] obtain n where
    "and_then (dict_get scene ''meshes'' (JArr [])) py_len = Inr n" by auto
  with assms show ?thesis by (simp add: primary_def)
qed

text \<open>
  C7, as the code has it. The extractor does not look at the indices: decoding succeeds and
  returns the mesh. When some index of the triangle \<open>k\<close> is not below the number of
  vertices, the primary path raises later, and \<open>main\<close> runs \<open>simple_extraction\<close> on the same
  paths, on the file system the primary path left. With no vertex at all the bounds that
  \<open>main\<close> prints raise \<^verbatim>\<open>IndexError\<close> and no file is written. Otherwise the writer has
  created the output file; when the count and the triangles before \<open>k\<close> are written without
  an error, the lookup \<^verbatim>\<open>vertices[face[..]]\<close> of the triangle \<open>k\<close> raises \<^verbatim>\<open>IndexError\<close>, and
  the fallback starts with an output file that holds the header, the count of all the
  triangles and the records before \<open>k\<close> (in the text file, the opening line and the facets
  before \<open>k\<close>).
\<close>

theorem bad_index_falls_back:
  assumes "3 \<le> length argv"
      and "parse_glb json_loads fs (argv ! 1) = Inr (scene, bin_data)"
      and "extract_mesh_from_glb scene bin_data = Inr (vertices, faces)"
      and "k < length faces" and "faces ! k = (a, b, c)"
      and "length vertices \<le> a \<or> length vertices \<le> b \<or> length vertices \<le> c"
  shows "(\<exists>fs' e.
      primary N json_loads fs (argv ! 1) (argv ! 2) (3 < length argv \<and> argv ! 3 = ''--ascii'')
        = (fs', Some e)
      \<and> main N json_loads fs argv =
        (case simple_extraction fs' (argv ! 1) (argv ! 2) of
           (fs'', r) \<Rightarrow> (fs'', Fallback e r)))
    \<and> (vertices = [] \<longrightarrow>
         main N json_loads fs argv =
           (case simple_extraction fs (argv ! 1) (argv ! 2) of
              (fs'', r) \<Rightarrow> (fs'', Fallback IndexError r)))
    \<and> (vertices \<noteq> [] \<and> \<not> (3 < length argv \<and> argv ! 3 = ''--ascii'')
          \<and> length faces < 2 ^ 32
          \<and> for_each (binary_record N vertices) (take k faces) = (written, None) \<longrightarrow>
         main N json_loads fs argv =
           (case simple_extraction
                   (fs(argv ! 2 \<mapsto> binary_header @ le_bytes4 (length faces) @ written))
                   (argv ! 1) (argv ! 2) of
              (fs'', r) \<Rightarrow> (fs'', Fallback IndexError r)))
    \<and> (vertices \<noteq> [] \<and> 3 < length argv \<and> argv ! 3 = ''--ascii''
          \<and> for_each (ascii_facet N vertices) (take k faces) = (facets, None) \<longrightarrow>
         main N json_loads fs argv =
           (case simple_extraction
                   (fs(argv ! 2 \<mapsto> bytes_of (''solid glTF_converted'' @ newline @ facets)))
                   (argv ! 1) (argv ! 2) of
              (fs'', r) \<Rightarrow> (fs'', Fallback IndexError r)))"
proof -
  let ?ascii = "3 < length argv \<and> argv ! 3 = ''--ascii''"
  note p = primary_writes [OF assms(2,3), of N "argv ! 2" ?ascii]
  have mem: "(a, b, c) \<in> set faces"
    using assms(4,5) by (metis nth_mem)
  have first: "\<exists>fs' e.
      primary N json_loads fs (argv ! 1) (argv ! 2) ?ascii = (fs', Some e)
      \<and> main N json_loads fs argv =
        (case simple_extraction fs' (argv ! 1) (argv ! 2) of
           (fs'', r) \<Rightarrow> (fs'', Fallback e r))"
  proof -
    from primary_bad_index [OF assms(2,3) mem assms(6)] obtain fs' e where
      q: "primary N json_loads fs (argv ! 1) (argv ! 2) ?ascii = (fs', Some e)"
      by blast
    from main_fallback [OF assms(1) q] q show ?thesis by blast
  qed
  have none: "main N json_loads fs argv =
           (case simple_extraction fs (argv ! 1) (argv ! 2) of
              (fs'', r) \<Rightarrow> (fs'', Fallback IndexError r))"
    if "vertices = []"
  proof -
    from p that have "primary N json_loads fs (argv ! 1) (argv ! 2) ?ascii
        = (fs, Some IndexError)" by simp
    from main_fallback [OF assms(1) this] show ?thesis .
  qed
  have binary: "main N json_loads fs argv =
           (case simple_extraction
                   (fs(argv ! 2 \<mapsto> binary_header @ le_bytes4 (length faces) @ written))
                   (argv ! 1) (argv ! 2) of
              (fs'', r) \<Rightarrow> (fs'', Fallback IndexError r))"
    if "vertices \<noteq> []" "\<not> ?ascii" "length faces < 2 ^ 32"
      "for_each (binary_record N vertices) (take k faces) = (written, None)"
  proof -
    from p that(1,2)
    have "primary N json_loads fs (argv ! 1) (argv ! 2) ?ascii
        = write_stl_binary N vertices faces fs (argv ! 2)" by (simp cong: conj_cong)
    also have "\<dots> =
        (fs(argv ! 2 \<mapsto> binary_header @ le_bytes4 (length faces) @ written), Some IndexError)"
      using assms(4,5,6) that(3,4) by (rule write_binary_stops)
    finally show ?thesis by (rule main_fallback [OF assms(1)])
  qed
  have ascii: "main N json_loads fs argv =
           (case simple_extraction
                   (fs(argv ! 2 \<mapsto> bytes_of (''solid glTF_converted'' @ newline @ facets)))
                   (argv ! 1) (argv ! 2) of
              (fs'', r) \<Rightarrow> (fs'', Fallback IndexError r))"
    if "vertices \<noteq> []" "?ascii"
      "for_each (ascii_facet N vertices) (take k faces) = (facets, None)"
  proof -
    from p that(1,2)
    have "primary N json_loads fs (argv ! 1) (argv ! 2) ?ascii
        = write_stl_ascii N vertices faces fs (argv ! 2)" by simp
    also have "\<dots> =
        (fs(argv ! 2 \<mapsto> bytes_of (''solid glTF_converted'' @ newline @ facets)),
         Some IndexError)"
      using assms(4,5,6) that(3) by (rule write_ascii_stops)
    finally show ?thesis by (rule main_fallback [OF assms(1)])
  qed
  from first none binary ascii show ?thesis by blast
qed

lemma three_indices_one_vertex:
  "extract_mesh_from_glb (example_scene 1 3) (take 24 example_payload)
     = Inr ([(0, 0, 0)], [(0, 1, 2)])"
  by (simp add: extract_mesh_from_glb_def example_find accessor_def range_of_def py_range.simps
      offset_at_def example_payload_def py_slice_def slice_bound_def unpack_fff_def
      unpack_III_def f32_of_def le_nat_def)

lemma one_vertex_file:
  "parse_glb (\<lambda>bs. Inr (example_scene 1 3))
       [''model.glb'' \<mapsto> glb_file (take 24 example_payload)] ''model.glb''
     = Inr (example_scene 1 3, take 24 example_payload)"
  by (rule parse_glb_file) (simp add: example_payload_def)

theorem bad_index_falls_back_witness:
  "parse_glb (\<lambda>bs. Inr (example_scene 1 3))
       [''model.glb'' \<mapsto> glb_file (take 24 example_payload)] ''model.glb''
     = Inr (example_scene 1 3, take 24 example_payload)
   \<and> extract_mesh_from_glb (example_scene 1 3) (take 24 example_payload)
     = Inr ([(0, 0, 0)], [(0, 1, 2)])
   \<and> length [(0, 0, 0) :: vertex] \<le> 1
   \<and> for_each (binary_record example_numerics [(0, 0, 0)]) (take 0 [(0, 1, 2)]) = ([], None)
   \<and> main example_numerics (\<lambda>bs. Inr (example_scene 1 3))
         [''model.glb'' \<mapsto> glb_file (take 24 example_payload)]
         [''glb2stl.py'', ''model.glb'', ''out.stl'']
       = (case simple_extraction
                 [''model.glb'' \<mapsto> glb_file (take 24 example_payload),
                  ''out.stl'' \<mapsto> binary_header @ le_bytes4 1]
                 ''model.glb'' ''out.stl'' of
            (fs'', r) \<Rightarrow> (fs'', Fallback IndexError r))"
proof -
  have p': "parse_glb (\<lambda>bs. Inr (example_scene 1 3))
       [''model.glb'' \<mapsto> glb_file (take 24 example_payload)]
       ([''glb2stl.py'', ''model.glb'', ''out.stl''] ! 1)
     = Inr (example_scene 1 3, take 24 example_payload)"
    using one_vertex_file by simp
  have l: "3 \<le> length [''glb2stl.py'', ''model.glb'', ''out.stl'']" by simp
  have k: "0 < length [(0, 1, 2 :: nat)]" "[(0, 1, 2 :: nat)] ! 0 = (0, 1, 2)" by simp_all
  have bad: "length [(0, 0, 0) :: vertex] \<le> 0 \<or> length [(0, 0, 0) :: vertex] \<le> 1
      \<or> length [(0, 0, 0) :: vertex] \<le> 2" by simp
  have w: "for_each (binary_record example_numerics [(0, 0, 0)]) (take 0 [(0, 1, 2)]) = ([], None)"
    by simp
  note t = bad_index_falls_back [where N = example_numerics and written = "[]",
      OF l p' three_indices_one_vertex k bad, THEN conjunct2, THEN conjunct2, THEN conjunct1,
      THEN mp]
  have "main example_numerics (\<lambda>bs. Inr (example_scene 1 3))
         [''model.glb'' \<mapsto> glb_file (take 24 example_payload)]
         [''glb2stl.py'', ''model.glb'', ''out.stl'']
       = (case simple_extraction
                 [''model.glb'' \<mapsto> glb_file (take 24 example_payload),
                  ''out.stl'' \<mapsto> binary_header @ le_bytes4 1]
                 ''model.glb'' ''out.stl'' of
            (fs'', r) \<Rightarrow> (fs'', Fallback IndexError r))"
    using t by simp
  with one_vertex_file three_indices_one_vertex w show ?thesis by simp
qed

text \<open>
  The claim has an index out of range fail the decoding. It does not: the file below
  decodes to one vertex and the triangle \<open>(0, 1, 2)\<close>, and the primary path raises in the
  writer, at the lookup of vertex 1, after it has written the header and the count to the
  output file.
\<close>

theorem bad_index_decoded_counterexample:
  "extract_mesh_from_glb (example_scene 1 3) (take 24 example_payload)
     = Inr ([(0, 0, 0)], [(0, 1, 2)])
   \<and> \<not> 1 < length [(0, 0, 0) :: vertex]
   \<and> primary example_numerics (\<lambda>bs. Inr (example_scene 1 3))
         [''model.glb'' \<mapsto> glb_file (take 24 example_payload)] ''model.glb'' ''out.stl'' False
       = ([''model.glb'' \<mapsto> glb_file (take 24 example_payload),
           ''out.stl'' \<mapsto> binary_header @ le_bytes4 1], Some IndexError)"
proof -
  have "write_stl_binary example_numerics [(0, 0, 0)] [(0, 1, 2)]
          [''model.glb'' \<mapsto> glb_file (take 24 example_payload)] ''out.stl''
      = ([''model.glb'' \<mapsto> glb_file (take 24 example_payload),
           ''out.stl'' \<mapsto> binary_header @ le_bytes4 1], Some IndexError)"
    by (simp add: write_stl_binary_def pack_I_def binary_record_def face_vertices_def
        np_index_def)
  then show ?thesis
    using primary_writes [OF one_vertex_file three_indices_one_vertex, of example_numerics
        "''out.stl''" False] three_indices_one_vertex
    by simp
qed

section \<open>The binary file\<close>

lemma pack_normal_length: "pack_normal N n = Inr nb \<Longrightarrow> length nb = 12"
  by (cases n) (auto simp: pack_normal_def and_then_Inr f32_bytes_def le_bytes4_def)

lemma face_vertices_ok:
  "a < length vs \<Longrightarrow> b < length vs \<Longrightarrow> c < length vs \<Longrightarrow>
   face_vertices vs (a, b, c) = Inr (vs ! a, vs ! b, vs ! c)"
  by (simp add: face_vertices_def np_index_def)

lemma binary_record_ok:
  assumes "a < length vs" "b < length vs" "c < length vs"
      and "pack_normal N (face_normal N (vs ! a) (vs ! b) (vs ! c)) = Inr nb"
  shows "binary_record N vs (a, b, c) =
     (nb @ pack_fff (vs ! a) @ pack_fff (vs ! b) @ pack_fff (vs ! c) @ pack_H_zero, None)"
  using assms by (simp add: binary_record_def face_vertices_ok write_vertices_ok)

lemma length_concat_const:
  "(\<And>x. x \<in> set xs \<Longrightarrow> length (g x) = n) \<Longrightarrow> length (concat (map g xs)) = n * length xs"
  by (induction xs) simp_all

lemma binary_header_length: "length binary_header = 80"
  by (simp add: binary_header_def bytes_of_def)

text \<open>
  C2, as the code has it. For a triangle array of length \<open>T < 2^32\<close> whose indices are all
  below the number of vertices and whose normals \<^verbatim>\<open>struct.pack\<close> accepts, the writer returns
  normally and the file is the 80-byte header, the four bytes of \<open>T\<close> in little-endian
  order, and one record for each triangle in array order: the 12 bytes of the normal, the
  36 bytes of the vertices \<open>a\<close>, \<open>b\<close>, \<open>c\<close> and two zero bytes; \<open>84 + 50 * T\<close> bytes in all.
\<close>

theorem binary_file_layout:
  assumes "length faces < 2 ^ 32"
      and "\<forall>f \<in> set faces. case f of (a, b, c) \<Rightarrow>
             a < length vertices \<and> b < length vertices \<and> c < length vertices
             \<and> (\<exists>nb. pack_normal N (face_normal N (vertices ! a) (vertices ! b) (vertices ! c))
                    = Inr nb)"
  shows "\<exists>records.
      write_stl_binary N vertices faces fs filename =
        (fs(filename \<mapsto> binary_header @ le_bytes4 (length faces) @ concat records), None)
    \<and> length binary_header = 80
    \<and> le_nat (le_bytes4 (length faces)) = length faces
    \<and> length records = length faces
    \<and> (\<forall>k < length faces. case faces ! k of (a, b, c) \<Rightarrow>
          \<exists>nb. pack_normal N (face_normal N (vertices ! a) (vertices ! b) (vertices ! c)) = Inr nb
            \<and> length nb = 12
            \<and> length (pack_fff (vertices ! a) @ pack_fff (vertices ! b) @ pack_fff (vertices ! c))
                = 36
            \<and> records ! k = nb @ pack_fff (vertices ! a) @ pack_fff (vertices ! b)
                @ pack_fff (vertices ! c) @ [0, 0])
    \<and> length (binary_header @ le_bytes4 (length faces) @ concat records)
        = 84 + 50 * length faces"
proof -
  let ?nb = "\<lambda>f. case f of (a, b, c) \<Rightarrow>
      projr (pack_normal N (face_normal N (vertices ! a) (vertices ! b) (vertices ! c)))"
  let ?g = "\<lambda>f. case f of (a, b, c) \<Rightarrow>
      ?nb f @ pack_fff (vertices ! a) @ pack_fff (vertices ! b) @ pack_fff (vertices ! c)
        @ pack_H_zero"
  have face: "a < length vertices \<and> b < length vertices \<and> c < length vertices
      \<and> pack_normal N (face_normal N (vertices ! a) (vertices ! b) (vertices ! c))
          = Inr (?nb (a, b, c))"
    if "(a, b, c) \<in> set faces" for a b c
    using assms(2) that by fastforce
  have rec: "binary_record N vertices f = (?g f, None)" if "f \<in> set faces" for f
  proof (cases f)
    case (fields a b c)
    with that face [of a b c] show ?thesis
      by (simp add: binary_record_ok)
  qed
  have len: "length (?g f) = 50" if "f \<in> set faces" for f
  proof (cases f)
    case (fields a b c)
    with that face [of a b c] show ?thesis
      by (simp add: pack_normal_length length_pack_fff pack_H_zero_def)
  qed
  have loop: "for_each (binary_record N vertices) faces = (concat (map ?g faces), None)"
    using rec by (rule for_each_ok)
  have count: "pack_I (length faces) = Inr (le_bytes4 (length faces))"
    using assms(1) by (simp add: pack_I_def)
  have total: "length (concat (map ?g faces)) = 50 * length faces"
    using len by (rule length_concat_const)
  have nth: "case faces ! k of (a, b, c) \<Rightarrow>
      \<exists>nb. pack_normal N (face_normal N (vertices ! a) (vertices ! b) (vertices ! c)) = Inr nb
        \<and> length nb = 12
        \<and> length (pack_fff (vertices ! a) @ pack_fff (vertices ! b) @ pack_fff (vertices ! c)) = 36
        \<and> map ?g faces ! k = nb @ pack_fff (vertices ! a) @ pack_fff (vertices ! b)
            @ pack_fff (vertices ! c) @ [0, 0]"
    if "k < length faces" for k
  proof (cases "faces ! k")
    case (fields a b c)
    with that have "(a, b, c) \<in> set faces" by (metis nth_mem)
    from face [OF this] fields that show ?thesis
      by (simp add: pack_normal_length length_pack_fff pack_H_zero_def)
  qed
  show ?thesis
  proof (intro exI [of _ "map ?g faces"] conjI allI impI)
    show "write_stl_binary N vertices faces fs filename =
        (fs(filename \<mapsto> binary_header @ le_bytes4 (length faces) @ concat (map ?g faces)), None)"
      by (simp add: write_stl_binary_def count loop)
    show "length binary_header = 80" by (rule binary_header_length)
    show "le_nat (le_bytes4 (length faces)) = length faces"
      using assms(1) by (rule le_nat_le_bytes4)
    show "length (map ?g faces) = length faces" by simp
    show "length (binary_header @ le_bytes4 (length faces) @ concat (map ?g faces))
        = 84 + 50 * length faces"
      by (simp add: binary_header_length total le_bytes4_def)
  next
    fix k assume "k < length faces"
    then show "case faces ! k of (a, b, c) \<Rightarrow>
      \<exists>nb. pack_normal N (face_normal N (vertices ! a) (vertices ! b) (vertices ! c)) = Inr nb
        \<and> length nb = 12
        \<and> length (pack_fff (vertices ! a) @ pack_fff (vertices ! b) @ pack_fff (vertices ! c)) = 36
        \<and> map ?g faces ! k = nb @ pack_fff (vertices ! a) @ pack_fff (vertices ! b)
            @ pack_fff (vertices ! c) @ [0, 0]"
      by (rule nth)
  qed
qed


lemma one_value: "float_int (float_of_f32 0x3F800000) = Some 1"
  by (simp add: float_of_f32_def float_int_def)

lemma zero_value: "float_int (float_of_f32 0) = Some 0"
  by (simp add: float_of_f32_def float_int_def)

lemma int_value: "float_int (int_float (Some i)) = Some i"
  by (simp add: float_int_def int_float_def)

lemma example_sub:
  "float_int x = Some a \<Longrightarrow> float_int y = Some b \<Longrightarrow>
   f_sub example_numerics x y = int_float (Some (a - b))"
  by (simp add: example_numerics_def int_op_def)

lemma example_mul:
  "float_int x = Some a \<Longrightarrow> float_int y = Some b \<Longrightarrow>
   f_mul example_numerics x y = int_float (Some (a * b))"
  by (simp add: example_numerics_def int_op_def)

lemma example_div:
  "float_int x = Some a \<Longrightarrow> float_int y = Some b \<Longrightarrow> b \<noteq> 0 \<Longrightarrow> b dvd a \<Longrightarrow>
   f_div example_numerics x y = int_float (Some (a div b))"
  by (simp add: example_numerics_def int_op_def)

lemma example_norm:
  "float_int x = Some a \<Longrightarrow> float_int y = Some b \<Longrightarrow> float_int z = Some c \<Longrightarrow>
   f_norm example_numerics (x, y, z) =
     (if a * a + b * b + c * c = 0 then int_float (Some 0)
      else if a * a + b * b + c * c = 1 then int_float (Some 1) else NaN)"
  by (simp add: example_numerics_def int_norm_def)

lemma one_positive: "is_positive (int_float (Some 1))"
  by (simp add: int_float_def)

lemma unit_triangle_normal:
  "face_normal example_numerics (0, 0, 0) (0x3F800000, 0, 0) (0, 0x3F800000, 0)
     = (int_float (Some 0), int_float (Some 0), int_float (Some 1))"
  by (simp add: face_normal_def vec_sub_def vec_of_def Let_def example_sub example_mul
      example_div example_norm one_value zero_value int_value one_positive)

lemma unit_triangle_normal_bytes:
  "pack_normal example_numerics
     (face_normal example_numerics (0, 0, 0) (0x3F800000, 0, 0) (0, 0x3F800000, 0))
     = Inr [0, 0, 0, 0, 0, 0, 0, 0, 0, 0, 0x80, 0x3F]"
  unfolding unit_triangle_normal
  by (simp add: pack_normal_def example_numerics_def int_pack_def int_value f32_bytes_def
      le_bytes4_def)

theorem binary_file_layout_witness:
  "length [(0, 1, 2 :: nat)] < (2 :: nat) ^ 32
   \<and> pack_normal example_numerics
        (face_normal example_numerics (0, 0, 0) (0x3F800000, 0, 0) (0, 0x3F800000, 0))
      = Inr [0, 0, 0, 0, 0, 0, 0, 0, 0, 0, 0x80, 0x3F]
   \<and> write_stl_binary example_numerics [(0, 0, 0), (0x3F800000, 0, 0), (0, 0x3F800000, 0)]
        [(0, 1, 2)] Map.empty ''out.stl''
      = ([''out.stl'' \<mapsto> binary_header @ le_bytes4 1 @
            [0, 0, 0, 0, 0, 0, 0, 0, 0, 0, 0x80, 0x3F] @
            pack_fff (0, 0, 0) @ pack_fff (0x3F800000, 0, 0) @ pack_fff (0, 0x3F800000, 0) @
            [0, 0]], None)
   \<and> length (binary_header @ le_bytes4 1 @
            [0, 0, 0, 0, 0, 0, 0, 0, 0, 0, 0x80, 0x3F] @
            pack_fff (0, 0, 0) @ pack_fff (0x3F800000, 0, 0) @ pack_fff (0, 0x3F800000, 0) @
            [0, 0 :: byte]) = 84 + 50 * 1"
proof -
  from binary_file_layout [of "[(0, 1, 2)]"
      "[(0, 0, 0), (0x3F800000, 0, 0), (0, 0x3F800000, 0)]" example_numerics Map.empty "''out.stl''"]
  obtain records where
    r: "write_stl_binary example_numerics [(0, 0, 0), (0x3F800000, 0, 0), (0, 0x3F800000, 0)]
          [(0, 1, 2)] Map.empty ''out.stl''
        = ([''out.stl'' \<mapsto> binary_header @ le_bytes4 1 @ concat records], None)"
       "length records = 1"
       "records ! 0 = [0, 0, 0, 0, 0, 0, 0, 0, 0, 0, 0x80, 0x3F] @
            pack_fff (0, 0, 0) @ pack_fff (0x3F800000, 0, 0) @ pack_fff (0, 0x3F800000, 0) @ [0, 0]"
    by (auto simp: unit_triangle_normal_bytes)
  from r(2,3) have "records = [[0, 0, 0, 0, 0, 0, 0, 0, 0, 0, 0x80, 0x3F] @
            pack_fff (0, 0, 0) @ pack_fff (0x3F800000, 0, 0) @ pack_fff (0, 0x3F800000, 0) @ [0, 0]]"
    by (cases records) auto
  with r(1) show ?thesis
    by (simp add: unit_triangle_normal_bytes binary_header_length length_pack_fff le_bytes4_def)
qed

text \<open>
  The claim fails for every triangle array: a triangle that names a vertex the array does
  not have makes the writer raise \<^verbatim>\<open>IndexError\<close>, and the file is left with the header and
  the count, 84 bytes for a declared count of one.
\<close>

theorem bad_index_no_file_counterexample:
  "write_stl_binary example_numerics [(0, 0, 0)] [(0, 0, 1)] Map.empty ''out.stl''
     = ([''out.stl'' \<mapsto> binary_header @ le_bytes4 1], Some IndexError)
   \<and> length (binary_header @ le_bytes4 1) \<noteq> 84 + 50 * length [(0, 0, 1 :: nat)]"
  by (simp add: write_stl_binary_def pack_I_def binary_record_def face_vertices_def np_index_def
      binary_header_length le_bytes4_def)

section \<open>The text file\<close>

lemma digit_char_values:
  "map digit_char [0, 1, 2, 3, 4, 5, 6, 7, 8, 9] = ''0123456789''"
  by (simp add: digit_char_def char_of_def bit_simps)

lemma digit_char_is_digit: "d < 10 \<Longrightarrow> is_digit (digit_char d)"
proof -
  assume "d < 10"
  then have "d = 0 \<or> d = 1 \<or> d = 2 \<or> d = 3 \<or> d = 4 \<or> d = 5 \<or> d = 6 \<or> d = 7 \<or> d = 8 \<or> d = 9"
    by arith
  with digit_char_values show ?thesis
    by (auto simp: is_digit_def)
qed

lemma decimal_digits: "decimal n \<noteq> [] \<and> list_all is_digit (decimal n)"
proof (induction n rule: decimal.induct)
  case (1 n)
  show ?case
  proof (cases "n < 10")
    case True
    then show ?thesis by (subst (1 2) decimal.simps) (simp add: digit_char_is_digit)
  next
    case False
    with 1 show ?thesis by (subst (1 2) decimal.simps) (simp add: digit_char_is_digit)
  qed
qed

lemma frac6_digits: "length (frac6 n) = 6 \<and> list_all is_digit (frac6 n)"
  by (simp add: frac6_def digit_char_is_digit)

lemma point_not_digit: "\<not> is_digit CHR ''.''" and minus_not_digit: "\<not> is_digit CHR ''-''"
  by (simp_all add: is_digit_def)

lemma fixed6_shape:
  assumes "whole \<noteq> []" "list_all is_digit whole" "length fr = 6" "list_all is_digit fr"
  shows "fixed6 (sign_text s @ whole @ CHR ''.'' # fr)"
proof -
  from assms(1) obtain c cs where w: "whole = c # cs" by (cases whole) auto
  with assms(2) have c: "is_digit c" by simp
  then have "c \<noteq> CHR ''-''" using minus_not_digit by auto
  then have body: "(if take 1 (sign_text s @ whole @ CHR ''.'' # fr) = ''-''
      then drop 1 (sign_text s @ whole @ CHR ''.'' # fr) else sign_text s @ whole @ CHR ''.'' # fr)
      = whole @ CHR ''.'' # fr"
    by (simp add: sign_text_def w)
  have tw: "takeWhile is_digit (whole @ CHR ''.'' # fr) = whole"
    using assms(2) point_not_digit by (simp add: takeWhile_tail list_all_iff)
  have dw: "dropWhile is_digit (whole @ CHR ''.'' # fr) = CHR ''.'' # fr"
    using assms(2) point_not_digit by (simp add: dropWhile_append3 list_all_iff)
  show ?thesis
    unfolding fixed6_def body Let_def tw dw using assms by simp
qed

lemma finite_fixed6: "fixed6 (format_6f (Finite s m e))"
  using decimal_digits frac6_digits by (simp add: Let_def fixed6_shape)

lemma format_one: "format_6f (Finite False 1 0) = ''1.000000''"
  using digit_char_values by (simp add: scaled6_def sign_text_def frac6_def decimal.simps)

lemma format_millionth: "format_6f (Finite False 4722366482869645 (- 72)) = ''0.000001''"
  using digit_char_values
  by (simp add: scaled6_def round_half_even_def sign_text_def frac6_def decimal.simps Let_def)

lemma format_millionth_f32: "format_6f (float_of_f32 0x358637BD) = ''0.000001''"
  using digit_char_values
  by (simp add: float_of_f32_def scaled6_def round_half_even_def sign_text_def frac6_def
      decimal.simps Let_def)

lemma nan_not_fixed6: "\<not> fixed6 ''nan''"
  by (simp add: fixed6_def is_digit_def)


lemma ascii_vertices_ok:
  "a < length vs \<Longrightarrow> b < length vs \<Longrightarrow> c < length vs \<Longrightarrow>
   ascii_vertices vs (a, b, c) =
     (vertex_line (vs ! a) @ vertex_line (vs ! b) @ vertex_line (vs ! c), None)"
  by (simp add: ascii_vertices_def np_index_def)

lemma ascii_facet_ok:
  assumes "a < length vs" "b < length vs" "c < length vs"
  shows "ascii_facet N vs (a, b, c) =
     (normal_line (face_normal N (vs ! a) (vs ! b) (vs ! c)) @ ''  outer loop'' @ newline @
      vertex_line (vs ! a) @ vertex_line (vs ! b) @ vertex_line (vs ! c) @
      ''  endloop'' @ newline @ ''endfacet'' @ newline, None)"
  using assms
  by (simp add: ascii_facet_def face_vertices_def np_index_def ascii_vertices_ok Let_def)

text \<open>
  C9, as the code has it. When the indices are in range the text file is the opening line,
  one facet for each triangle and the closing line; each facet holds a normal line and
  three vertex lines, and every number on them is \<open>format_6f\<close> of a normal component or
  of a coordinate. A finite value is rendered as an optional minus sign, the digits of the
  whole part, a point and exactly six digits, whatever its magnitude (1.0 as
  \<^verbatim>\<open>1.000000\<close>; 0.000001 as \<^verbatim>\<open>0.000001\<close>, as a binary64 value and as the binary32 value
  \<open>0x358637BD\<close> of a payload); a NaN is rendered \<^verbatim>\<open>nan\<close> and an infinity \<^verbatim>\<open>inf\<close> or
  \<^verbatim>\<open>-inf\<close>.
\<close>

theorem ascii_numbers_fixed6:
  assumes "\<forall>f \<in> set faces. case f of (a, b, c) \<Rightarrow>
             a < length vertices \<and> b < length vertices \<and> c < length vertices"
  shows "write_stl_ascii N vertices faces fs filename =
      (fs(filename \<mapsto> bytes_of (''solid glTF_converted'' @ newline @
            concat (map (\<lambda>f. case f of (a, b, c) \<Rightarrow>
                normal_line (face_normal N (vertices ! a) (vertices ! b) (vertices ! c)) @
                ''  outer loop'' @ newline @
                vertex_line (vertices ! a) @ vertex_line (vertices ! b) @
                vertex_line (vertices ! c) @
                ''  endloop'' @ newline @ ''endfacet'' @ newline) faces) @
            ''endsolid glTF_converted'' @ newline)), None)
    \<and> normal_line (n0, n1, n2) =
        ''facet normal '' @ format_6f n0 @ '' '' @ format_6f n1 @ '' '' @ format_6f n2 @ newline
    \<and> vertex_line (x, y, z) =
        ''    vertex '' @ format_6f (float_of_f32 x) @ '' '' @ format_6f (float_of_f32 y) @ '' ''
          @ format_6f (float_of_f32 z) @ newline
    \<and> fixed6 (format_6f (Finite s m e))
    \<and> format_6f (Finite False 1 0) = ''1.000000''
    \<and> format_6f (Finite False 4722366482869645 (- 72)) = ''0.000001''
    \<and> format_6f (float_of_f32 0x358637BD) = ''0.000001''
    \<and> format_6f NaN = ''nan''
    \<and> format_6f (Infinite s) = sign_text s @ ''inf''"
proof -
  let ?g = "\<lambda>f. case f of (a, b, c) \<Rightarrow>
      normal_line (face_normal N (vertices ! a) (vertices ! b) (vertices ! c)) @
      ''  outer loop'' @ newline @
      vertex_line (vertices ! a) @ vertex_line (vertices ! b) @ vertex_line (vertices ! c) @
      ''  endloop'' @ newline @ ''endfacet'' @ newline"
  have "ascii_facet N vertices f = (?g f, None)" if "f \<in> set faces" for f
  proof (cases f)
    case (fields a b c)
    with that assms have "a < length vertices" "b < length vertices" "c < length vertices"
      by auto
    with fields show ?thesis by (simp add: ascii_facet_ok)
  qed
  then have "for_each (ascii_facet N vertices) faces = (concat (map ?g faces), None)"
    by (rule for_each_ok)
  then have "write_stl_ascii N vertices faces fs filename =
      (fs(filename \<mapsto> bytes_of (''solid glTF_converted'' @ newline @ concat (map ?g faces) @
            ''endsolid glTF_converted'' @ newline)), None)"
    by (simp add: write_stl_ascii_def)
  moreover have "normal_line (n0, n1, n2) =
        ''facet normal '' @ format_6f n0 @ '' '' @ format_6f n1 @ '' '' @ format_6f n2 @ newline"
    by (simp add: normal_line_def)
  moreover have "vertex_line (x, y, z) =
        ''    vertex '' @ format_6f (float_of_f32 x) @ '' '' @ format_6f (float_of_f32 y) @ '' ''
          @ format_6f (float_of_f32 z) @ newline"
    by (simp add: vertex_line_def vec_of_def)
  moreover have "format_6f NaN = ''nan''" "format_6f (Infinite s) = sign_text s @ ''inf''"
    by simp_all
  ultimately show ?thesis
    using finite_fixed6 format_one format_millionth format_millionth_f32 by blast
qed

lemma format_zero_f32: "format_6f (float_of_f32 0) = ''0.000000''"
  using digit_char_values
  by (simp add: float_of_f32_def scaled6_def round_half_even_def sign_text_def frac6_def
      decimal.simps Let_def)

lemma format_one_f32: "format_6f (float_of_f32 0x3F800000) = ''1.000000''"
  using digit_char_values
  by (simp add: float_of_f32_def scaled6_def round_half_even_def sign_text_def frac6_def
      decimal.simps Let_def)

lemma format_int_zero: "format_6f (int_float (Some 0)) = ''0.000000''"
  using digit_char_values
  by (simp add: int_float_def scaled6_def sign_text_def frac6_def decimal.simps)

lemma format_int_one: "format_6f (int_float (Some 1)) = ''1.000000''"
  using digit_char_values
  by (simp add: int_float_def scaled6_def sign_text_def frac6_def decimal.simps)

theorem ascii_numbers_fixed6_witness:
  "write_stl_ascii example_numerics [(0, 0, 0), (0x3F800000, 0, 0), (0, 0x3F800000, 0)]
       [(0, 1, 2)] Map.empty ''out.stl''
     = ([''out.stl'' \<mapsto> bytes_of (''solid glTF_converted'' @ newline @
           ''facet normal 0.000000 0.000000 1.000000'' @ newline @
           ''  outer loop'' @ newline @
           ''    vertex 0.000000 0.000000 0.000000'' @ newline @
           ''    vertex 1.000000 0.000000 0.000000'' @ newline @
           ''    vertex 0.000000 1.000000 0.000000'' @ newline @
           ''  endloop'' @ newline @ ''endfacet'' @ newline @
           ''endsolid glTF_converted'' @ newline)], None)
   \<and> fixed6 ''1.000000''"
proof -
  have valid: "\<forall>f \<in> set [(0, 1, 2 :: nat)]. case f of (a, b, c) \<Rightarrow>
      a < length [(0, 0, 0), (0x3F800000, 0, 0), (0, 0x3F800000, 0 :: f32)]
      \<and> b < length [(0, 0, 0), (0x3F800000, 0, 0), (0, 0x3F800000, 0 :: f32)]
      \<and> c < length [(0, 0, 0), (0x3F800000, 0, 0), (0, 0x3F800000, 0 :: f32)]"
    by simp
  note t = ascii_numbers_fixed6 [OF valid, where N = example_numerics and fs = Map.empty
      and filename = "''out.stl''" and s = False and m = 1 and e = 0]
  from t have shape: "fixed6 (format_6f (Finite False 1 0))" by blast
  have f: "fixed6 ''1.000000''" using shape unfolding format_one .
  from t [THEN conjunct1] have w: "write_stl_ascii example_numerics
       [(0, 0, 0), (0x3F800000, 0, 0), (0, 0x3F800000, 0)] [(0, 1, 2)] Map.empty ''out.stl''
     = ([''out.stl'' \<mapsto> bytes_of (''solid glTF_converted'' @ newline @
           ''facet normal 0.000000 0.000000 1.000000'' @ newline @
           ''  outer loop'' @ newline @
           ''    vertex 0.000000 0.000000 0.000000'' @ newline @
           ''    vertex 1.000000 0.000000 0.000000'' @ newline @
           ''    vertex 0.000000 1.000000 0.000000'' @ newline @
           ''  endloop'' @ newline @ ''endfacet'' @ newline @
           ''endsolid glTF_converted'' @ newline)], None)"
    by (simp add: unit_triangle_normal normal_line_def vertex_line_def vec_of_def
        format_zero_f32 format_one_f32 format_int_zero format_int_one)
  from w f show ?thesis by (rule conjI)
qed

text \<open>
  The claim fails for a coordinate that is not finite: the 32-bit pattern \<open>0x7FC00000\<close> is a
  NaN, and its vertex line holds \<^verbatim>\<open>nan\<close>, with no decimal point and no digits.
\<close>

theorem nan_coordinate_counterexample:
  "vertex_line (0x7FC00000, 0, 0) = ''    vertex nan 0.000000 0.000000'' @ newline
   \<and> \<not> fixed6 ''nan''"
  using format_zero_f32 nan_not_fixed6
  by (simp add: vertex_line_def vec_of_def float_of_f32_def)

end
